theory Spec2Isabelle
  imports Main "HOL-Library.Word" "HOL-Library.Signed_Division"
begin

section \<open>Data model of the h2load package\<close>

text \<open>
  Go's \<open>int64\<close> and \<open>time.Duration\<close> (a count of nanoseconds) are 64-bit words:
  \<open>+\<close> wraps, \<open><s\<close> and \<open>\<le>s\<close> are the signed comparisons of the source.
  Go's \<open>int\<close> is taken at its width on 64-bit targets, where \<open>int64(x)\<close> is the identity.
\<close>

type_synonym int64 = "64 word"

text \<open>stats.go: \<open>type RequestStats struct\<close>.\<close>

record RequestStats =
  TotalRequests :: int64
  SuccessRequests :: int64
  FailedRequests :: int64
  MinLatency :: int64
  MaxLatency :: int64
  TotalLatency :: int64
  Duration :: int64

text \<open>h2load.go: \<open>type LogEntry struct\<close>.\<close>

record LogEntry =
  Status :: int64
  Latency :: int64
  Timestamp :: string

text \<open>The zero value \<open>RequestStats{}\<close> a new client and \<open>GetTotalStats\<close> start from.\<close>

definition zero_stats :: RequestStats where
  "zero_stats = \<lparr>TotalRequests = 0, SuccessRequests = 0, FailedRequests = 0,
     MinLatency = 0, MaxLatency = 0, TotalLatency = 0, Duration = 0\<rparr>"

text \<open>
  h2client.go, \<open>statsCollector\<close>: the body of \<open>for entry := range h.statsChan\<close>,
  one outcome taken from the queue.
\<close>

definition statsCollector_entry :: "RequestStats \<Rightarrow> LogEntry \<Rightarrow> RequestStats" where
  "statsCollector_entry st entry =
    (let s1 = st\<lparr>TotalRequests := TotalRequests st + 1\<rparr>;
         s2 = (if 200 \<le>s Status entry \<and> Status entry <s 400
               then s1\<lparr>SuccessRequests := SuccessRequests s1 + 1\<rparr>
               else s1\<lparr>FailedRequests := FailedRequests s1 + 1\<rparr>);
         s3 = (if TotalRequests s2 = 1
               then s2\<lparr>MinLatency := Latency entry, MaxLatency := Latency entry\<rparr>
               else (let s4 = (if Latency entry <s MinLatency s2
                               then s2\<lparr>MinLatency := Latency entry\<rparr> else s2)
                     in (if MaxLatency s4 <s Latency entry
                         then s4\<lparr>MaxLatency := Latency entry\<rparr> else s4)))
     in s3\<lparr>TotalLatency := TotalLatency s3 + Latency entry\<rparr>)"

text \<open>The collector loop over the outcomes it has received so far, from the zero value.\<close>

definition statsCollector :: "LogEntry list \<Rightarrow> RequestStats" where
  "statsCollector entries = foldl statsCollector_entry zero_stats entries"

text \<open>
  h2loadClient.go, \<open>GetTotalStats\<close>: the body of the loop over the clients, applied to the
  running total and one client's \<open>GetStats()\<close>.
\<close>

definition merge_stats :: "RequestStats \<Rightarrow> RequestStats \<Rightarrow> RequestStats" where
  "merge_stats totalStats st =
    (let t1 = totalStats\<lparr>
           TotalRequests := TotalRequests totalStats + TotalRequests st,
           SuccessRequests := SuccessRequests totalStats + SuccessRequests st,
           FailedRequests := FailedRequests totalStats + FailedRequests st,
           TotalLatency := TotalLatency totalStats + TotalLatency st\<rparr>;
         t2 = (if MinLatency t1 = 0 \<or> (0 <s MinLatency st \<and> MinLatency st <s MinLatency t1)
               then t1\<lparr>MinLatency := MinLatency st\<rparr> else t1);
         t3 = (if MaxLatency t2 <s MaxLatency st
               then t2\<lparr>MaxLatency := MaxLatency st\<rparr> else t2)
     in (if Duration t3 <s Duration st then t3\<lparr>Duration := Duration st\<rparr> else t3))"

definition total_of :: "RequestStats list \<Rightarrow> RequestStats" where
  "total_of sts = foldl merge_stats zero_stats sts"

text \<open>The property of section 3 of the specification: successful + failed = total.\<close>

definition counters_agree :: "RequestStats \<Rightarrow> bool" where
  "counters_agree st \<longleftrightarrow> SuccessRequests st + FailedRequests st = TotalRequests st"

section \<open>Configuration and pool construction\<close>

text \<open>h2load.go: \<open>type RpsMode int\<close> with its two constants.\<close>

datatype RpsMode = RpsModeBurst | RpsModeEven

text \<open>h2load.go: \<open>type H2loadConf struct\<close>.\<close>

record H2loadConf =
  Protocol :: string
  ServerAddress :: string
  Requests :: int64
  Rate :: int64
  RatePeriod :: int64
  Rps :: int64
  RpsMode :: RpsMode
  ConcurrentStreams :: int64
  Clients :: int64
  URL :: string

text \<open>
  The ways a call ends other than by returning a value: an \<open>error\<close> result with its
  message, or a panic of the Go runtime.
\<close>

datatype error = ValidationError string | Panic string

text \<open>h2load.go, \<open>Validate\<close>: \<open>None\<close> is the \<open>nil\<close> error.\<close>

definition Validate :: "H2loadConf \<Rightarrow> string option" where
  "Validate h =
    (if URL h = [] then Some ''URL is required''
     else if Requests h <s 0 then Some ''requests must be greater than 0''
     else if Rate h <s 0 then Some ''rate must be greater than 0''
     else if RatePeriod h <s 0 then Some ''rate period must be greater than 0''
     else if Rps h <s 0 then Some ''rps must be greater than 0''
     else if ConcurrentStreams h <s 0 then Some ''concurrent streams must be greater than 0''
     else if Clients h <s 0 then Some ''clients must be greater than 0''
     else None)"

text \<open>
  The validation invariant of the specification: a non-empty URL and every numeric
  field at least zero.
\<close>

definition fields_valid :: "H2loadConf \<Rightarrow> bool" where
  "fields_valid conf \<longleftrightarrow>
     URL conf \<noteq> [] \<and> 0 \<le>s Requests conf \<and> 0 \<le>s Rate conf \<and> 0 \<le>s RatePeriod conf \<and>
     0 \<le>s Rps conf \<and> 0 \<le>s ConcurrentStreams conf \<and> 0 \<le>s H2loadConf.Clients conf"

section \<open>One connection: the request pump of \<open>DoRequestsFactory\<close>\<close>

text \<open>
  The pump, its request tasks, the statistics collector and the two refill tasks of the
  rate limiter run as goroutines. Each is modelled by its control point; one event is
  one atomic operation of one goroutine (a channel operation, an atomic load or store,
  the choice a \<open>select\<close> makes) or of the environment (the transport answers, a
  ticker fires, \<open>Stop\<close> cancels the context). An event that is not enabled yields
  \<open>None\<close>; a schedule is a list of events.
\<close>

text \<open>Control points of the pump (the body of \<open>DoRequestsFactory\<close>).\<close>

datatype pump_pc =
    Idle        \<comment> \<open>\<open>DoRequestsFactory\<close> not yet called\<close>
  | LoopHead    \<comment> \<open>at the outer \<open>select\<close> of \<open>loop:\<close>\<close>
  | WaitToken   \<comment> \<open>at the \<open>select\<close> that receives from \<open>rpsTokens\<close>\<close>
  | TrySlot     \<comment> \<open>at the \<open>select\<close> that sends to \<open>streams\<close>\<close>
  | Drain       \<comment> \<open>after the loop, at \<open>streamsWg.Wait()\<close>\<close>
  | Returned    \<comment> \<open>the call has returned \<open>firstErr\<close>\<close>
  | Panicked    \<comment> \<open>a goroutine panicked: the process is gone\<close>

text \<open>Control points of one request task (the goroutine launched per request).\<close>

datatype task =
    TRequest              \<comment> \<open>in \<open>factory()\<close> and \<open>h.DoRequest(req)\<close>\<close>
  | TCheck "string option" \<comment> \<open>\<open>DoRequest\<close> returned this error; at \<open>err != nil && firstErr.Load() == nil\<close>\<close>
  | TStore string         \<comment> \<open>the load gave \<open>nil\<close>; at \<open>firstErr.Store(err)\<close>\<close>
  | TRelease              \<comment> \<open>in the deferred function, at \<open><-streams\<close>\<close>
  | TWgDone               \<comment> \<open>at \<open>streamsWg.Done()\<close>\<close>
  | TFinished

text \<open>What \<open>h.client.Do(req)\<close> gives: an error, or a response with its status code.\<close>

datatype transport_result = TransportError string | Response int64

text \<open>
  Control points of the goroutine ranging over \<open>rpsResetTicker.C\<close> (\<open>RFill i\<close>: at the
  \<open>select\<close> of the burst loop with loop variable \<open>i\<close>) and of the one ranging over
  \<open>evenTicker.C\<close>.
\<close>

datatype reset_pc = RWait | RFill int64 | RExited

datatype even_pc = EWait | ESelect | EExited

text \<open>
  h2client.go: \<open>type H2Client struct\<close> with the locals of its one call of
  \<open>DoRequestsFactory\<close>. A buffered channel of \<open>struct{}\<close> is the number of elements
  it holds; a ticker is its pending tick and whether \<open>Stop\<close> was called. The logger
  fields play no part in the pump and are left out.
\<close>

record H2Client =
  Conf :: H2loadConf
  ctxDone :: bool
  sentRequests :: int64
  stats :: RequestStats
  statsChan :: "LogEntry list"
  statsChanClosed :: bool
  pc :: pump_pc
  streams :: nat
  tasks :: "task list"
  firstErr :: "string option"
  rpsTokens :: nat
  rpsTokensClosed :: bool
  resetTask :: "reset_pc option"
  resetPending :: bool
  resetStopped :: bool
  evenTask :: "even_pc option"
  evenPending :: bool
  evenStopped :: bool

text \<open>
  h2client.go, \<open>NewH2Client\<close>. \<open>parse\<close> stands for \<open>url.Parse\<close> of the Go library
  returning no error; the constructor panics when it returns one.
\<close>

definition fresh_client :: "H2loadConf \<Rightarrow> H2Client" where
  "fresh_client conf = \<lparr>Conf = conf, ctxDone = False, sentRequests = 0, stats = zero_stats,
     statsChan = [], statsChanClosed = False, pc = Idle, streams = 0, tasks = [],
     firstErr = None, rpsTokens = 0, rpsTokensClosed = False,
     resetTask = None, resetPending = False, resetStopped = False,
     evenTask = None, evenPending = False, evenStopped = False\<rparr>"

definition NewH2Client :: "(string \<Rightarrow> bool) \<Rightarrow> H2loadConf \<Rightarrow> error + H2Client" where
  "NewH2Client parse conf =
    (if \<not> parse (URL conf) then Inl (Panic ''invalid URL in conf'')
     else Inr (fresh_client conf))"

text \<open>h2loadClient.go: \<open>type H2loadClient struct\<close>.\<close>

record H2loadClient =
  Clients :: "H2Client list"
  ClientsConf :: H2loadConf

text \<open>
  h2loadClient.go, the loop \<open>for i := 0; i < conf.Clients; i++\<close> of
  \<open>NewH2loadClient\<close>, with the clients appended so far.
\<close>

function new_clients :: "(string \<Rightarrow> bool) \<Rightarrow> H2loadConf \<Rightarrow> int64 \<Rightarrow> H2Client list
    \<Rightarrow> error + H2Client list" where
  "new_clients parse conf i clients =
    (if i <s H2loadConf.Clients conf
     then (case NewH2Client parse conf of
             Inl e \<Rightarrow> Inl e
           | Inr client \<Rightarrow> new_clients parse conf (i + 1) (clients @ [client]))
     else Inr clients)"
  by pat_completeness auto

lemma sint_succ_below:
  fixes i n :: int64
  assumes "i <s n"
  shows "sint (i + 1) = sint i + 1"
proof -
  have "sint n < 2 ^ 63" using sint_lt [of n] by simp
  moreover have "- (2 ^ 63) \<le> sint i" using sint_ge [of i] by simp
  moreover have "sint i < sint n" using assms by (simp add: word_sless_alt)
  ultimately have "signed_take_bit 63 (sint i + 1) = sint i + 1"
    by (intro signed_take_bit_int_eq_self) simp_all
  then show ?thesis by (simp add: sint_word_ariths)
qed

termination new_clients
  by (relation "measure (\<lambda>(parse, conf, i, clients). nat (sint (H2loadConf.Clients conf) - sint i))")
     (auto simp: sint_succ_below word_sless_alt)

declare new_clients.simps [simp del]

text \<open>
  \<open>make([]*H2Client, 0, n)\<close>: the runtime's \<open>makeslice\<close> panics when \<open>n\<close> is
  negative, or when the capacity in bytes (8 for each pointer) overflows \<open>uintptr\<close> or
  exceeds the allocator's limit \<open>maxAlloc\<close>. That limit is a constant of the Go
  runtime and not of this package (\<open>2^48\<close> on linux/amd64): it is a parameter.
  Memory running out below the limit is not modelled.
\<close>

definition makeslice_fits :: "nat \<Rightarrow> int64 \<Rightarrow> bool" where
  "makeslice_fits maxAlloc n \<longleftrightarrow>
     0 \<le> sint n \<and> 8 * nat (sint n) < 2 ^ 64 \<and> 8 * nat (sint n) \<le> maxAlloc"

definition maxAlloc_amd64 :: nat where
  "maxAlloc_amd64 = 2 ^ 48"

text \<open>
  h2loadClient.go, \<open>NewH2loadClient\<close>: validation, the slice made with capacity
  \<open>conf.Clients\<close>, then the loop.
\<close>

definition NewH2loadClient :: "(string \<Rightarrow> bool) \<Rightarrow> nat \<Rightarrow> H2loadConf \<Rightarrow> error + H2loadClient" where
  "NewH2loadClient parse maxAlloc conf =
    (case Validate conf of
       Some msg \<Rightarrow> Inl (ValidationError msg)
     | None \<Rightarrow>
         (if \<not> makeslice_fits maxAlloc (H2loadConf.Clients conf)
          then Inl (Panic ''runtime error: makeslice: cap out of range'')
          else (case new_clients parse conf 0 [] of
                  Inl e \<Rightarrow> Inl e
                | Inr clients \<Rightarrow> Inr \<lparr>Clients = clients, ClientsConf = conf\<rparr>)))"


definition GetTotalStats :: "H2loadClient \<Rightarrow> RequestStats" where
  "GetTotalStats h = total_of (map stats (Clients h))"

text \<open>
  Go's \<open>/\<close> on \<open>int64\<close>: a run-time panic on a zero divisor, the quotient truncated
  towards zero otherwise.
\<close>

definition div_int64 :: "int64 \<Rightarrow> int64 \<Rightarrow> error + int64" where
  "div_int64 a b =
    (if b = 0 then Inl (Panic ''runtime error: integer divide by zero'')
     else Inr (word_of_int (sint a sdiv sint b)))"

text \<open>
  h2loadClient.go, \<open>GetAvgClientStats\<close>. The fields of the composite literal are
  evaluated in order. \<open>fquot a b\<close> stands for \<open>int64(float64(a) / float64(b))\<close>: the
  floating-point division never panics (its result for a zero divisor is an
  implementation-specific integer), so the first panic is the integer division for
  \<open>TotalLatency\<close>.
\<close>

definition GetAvgClientStats :: "(int64 \<Rightarrow> int64 \<Rightarrow> int64) \<Rightarrow> H2loadClient
    \<Rightarrow> error + RequestStats" where
  "GetAvgClientStats fquot h =
    (let totalStats = GetTotalStats h;
         clientCount = (word_of_nat (length (Clients h)) :: int64);
         total = fquot (TotalRequests totalStats) clientCount;
         success = fquot (SuccessRequests totalStats) clientCount;
         failed = fquot (FailedRequests totalStats) clientCount
     in (case div_int64 (TotalLatency totalStats) clientCount of
           Inl e \<Rightarrow> Inl e
         | Inr avgLatency \<Rightarrow> Inr \<lparr>TotalRequests = total, SuccessRequests = success,
             FailedRequests = failed, MinLatency = MinLatency totalStats,
             MaxLatency = MaxLatency totalStats, TotalLatency = avgLatency,
             Duration = Duration totalStats\<rparr>))"

section \<open>Events of one connection\<close>

text \<open>
  h2client.go, \<open>DoRequest\<close>: the outcome handed to \<open>logResult\<close> (status 0 for a transport
  error) and the error returned.
\<close>

definition DoRequest :: "transport_result \<Rightarrow> int64 \<Rightarrow> LogEntry \<times> string option" where
  "DoRequest res latency =
    (case res of
       TransportError msg \<Rightarrow>
         (\<lparr>Status = 0, Latency = latency, Timestamp = []\<rparr>, Some (''request failed: '' @ msg))
     | Response code \<Rightarrow>
         (\<lparr>Status = code, Latency = latency, Timestamp = []\<rparr>, None))"

text \<open>
  h2client.go, \<open>logStats\<close>: a non-blocking send to the queue of capacity 10000, dropped
  when the queue is full.
\<close>

definition logStats :: "LogEntry list \<Rightarrow> LogEntry \<Rightarrow> LogEntry list" where
  "logStats queue entry = (if length queue < 10000 then queue @ [entry] else queue)"

text \<open>The case a \<open>select\<close> statement takes.\<close>

datatype select_case = SelDone | SelComm | SelDefault

datatype event =
    Cancel                               \<comment> \<open>\<open>h.cancel()\<close>, from \<open>Stop\<close>\<close>
  | Start                                \<comment> \<open>\<open>DoRequestsFactory\<close> is called and runs up to \<open>loop:\<close>\<close>
  | Loop select_case                     \<comment> \<open>the pump at the outer \<open>select\<close>\<close>
  | Token select_case                    \<comment> \<open>the pump at the \<open>select\<close> on \<open>rpsTokens\<close>\<close>
  | Slot select_case                     \<comment> \<open>the pump at the \<open>select\<close> on \<open>streams\<close>\<close>
  | WaitReturn int64                     \<comment> \<open>\<open>streamsWg.Wait()\<close> returns; the duration measured; the deferred calls\<close>
  | Complete nat transport_result int64  \<comment> \<open>task \<open>i\<close>: the transport answers after this latency\<close>
  | LoadErr nat                          \<comment> \<open>task \<open>i\<close>: \<open>err != nil && firstErr.Load() == nil\<close>\<close>
  | StoreErr nat                         \<comment> \<open>task \<open>i\<close>: \<open>firstErr.Store(err)\<close>\<close>
  | Release nat                          \<comment> \<open>task \<open>i\<close>: \<open><-streams\<close>\<close>
  | WgDone nat                           \<comment> \<open>task \<open>i\<close>: \<open>streamsWg.Done()\<close>\<close>
  | Collect                              \<comment> \<open>the statistics collector receives one outcome\<close>
  | ResetTick                            \<comment> \<open>\<open>rpsResetTicker\<close> fires\<close>
  | ResetRecv                            \<comment> \<open>\<open>for range rpsResetTicker.C\<close> receives\<close>
  | ResetSel select_case                 \<comment> \<open>the \<open>select\<close> of the burst loop\<close>
  | EvenTick                             \<comment> \<open>\<open>evenTicker\<close> fires\<close>
  | EvenRecv                             \<comment> \<open>\<open>for range evenTicker.C\<close> receives\<close>
  | EvenSel select_case                  \<comment> \<open>the \<open>select\<close> of the even loop\<close>

text \<open>
  The set-up of \<open>DoRequestsFactory\<close> before \<open>loop:\<close>. \<open>make(chan struct{}, n)\<close> panics
  for \<open>n < 0\<close>; \<open>time.NewTicker(d)\<close> panics for \<open>d \<le> 0\<close>, and
  \<open>time.Second / time.Duration(Rps)\<close> is zero for \<open>Rps\<close> above \<open>10^9\<close> (both operands
  are positive there, so the unsigned quotient of the words is the signed one).
\<close>

definition start :: "H2Client \<Rightarrow> H2Client" where
  "start h =
    (let conf = Conf h in
     if ConcurrentStreams conf <s 0 then h\<lparr>pc := Panicked\<rparr>
     else if 0 <s Rps conf then
       (if RpsMode conf = RpsModeEven then
          (if 1000000000 div Rps conf \<le>s 0 then h\<lparr>pc := Panicked\<rparr>
           else h\<lparr>pc := LoopHead, resetTask := Some RWait, evenTask := Some EWait\<rparr>)
        else h\<lparr>pc := LoopHead, resetTask := Some RWait\<rparr>)
     else h\<lparr>pc := LoopHead\<rparr>)"

text \<open>The outer \<open>select\<close>: \<open>case <-h.ctx.Done(): break loop\<close>, else the \<open>default\<close> branch
  up to its next \<open>select\<close>.\<close>

definition loop_head :: "select_case \<Rightarrow> H2Client \<Rightarrow> H2Client option" where
  "loop_head c h =
    (case c of
       SelDone \<Rightarrow> (if ctxDone h then Some (h\<lparr>pc := Drain\<rparr>) else None)
     | SelComm \<Rightarrow> None
     | SelDefault \<Rightarrow>
         (if ctxDone h then None
          else if 0 <s Requests (Conf h) \<and> Requests (Conf h) \<le>s sentRequests h
               then Some (h\<lparr>pc := Drain\<rparr>)
          else if 0 <s Rps (Conf h) then Some (h\<lparr>pc := WaitToken\<rparr>)
          else Some (h\<lparr>pc := TrySlot\<rparr>)))"

text \<open>The blocking \<open>select\<close> on \<open>h.ctx.Done()\<close> and \<open><-rpsTokens\<close>.\<close>

definition wait_token :: "select_case \<Rightarrow> H2Client \<Rightarrow> H2Client option" where
  "wait_token c h =
    (case c of
       SelDone \<Rightarrow> (if ctxDone h then Some (h\<lparr>pc := Drain\<rparr>) else None)
     | SelComm \<Rightarrow> (if 0 < rpsTokens h
                   then Some (h\<lparr>rpsTokens := rpsTokens h - 1, pc := TrySlot\<rparr>) else None)
     | SelDefault \<Rightarrow> None)"

text \<open>
  When \<open>streams <- struct{}{}\<close> can proceed: the buffer has room, or (the only way for a
  channel of capacity zero) a task is blocked receiving from the empty channel.
\<close>

definition slot_free :: "H2Client \<Rightarrow> bool" where
  "slot_free h \<longleftrightarrow> int (streams h) < sint (ConcurrentStreams (Conf h))"

definition receiver_blocked :: "H2Client \<Rightarrow> bool" where
  "receiver_blocked h \<longleftrightarrow> streams h = 0 \<and> TRelease \<in> set (tasks h)"

text \<open>The first task blocked at \<open><-streams\<close> takes the element directly.\<close>

fun hand_over :: "task list \<Rightarrow> task list" where
  "hand_over [] = []"
| "hand_over (t # ts) = (if t = TRelease then TWgDone # ts else t # hand_over ts)"

text \<open>
  The \<open>select\<close> on \<open>h.ctx.Done()\<close>, \<open>streams <- struct{}{}\<close> and \<open>default\<close>. The send case
  counts the request and launches its task; \<open>default\<close> sleeps a microsecond.
\<close>

definition try_slot :: "select_case \<Rightarrow> H2Client \<Rightarrow> H2Client option" where
  "try_slot c h =
    (case c of
       SelDone \<Rightarrow> (if ctxDone h then Some (h\<lparr>pc := Drain\<rparr>) else None)
     | SelComm \<Rightarrow>
         (if slot_free h
          then Some (h\<lparr>streams := streams h + 1, sentRequests := sentRequests h + 1,
                       tasks := tasks h @ [TRequest], pc := LoopHead\<rparr>)
          else if receiver_blocked h
          then Some (h\<lparr>sentRequests := sentRequests h + 1,
                       tasks := hand_over (tasks h) @ [TRequest], pc := LoopHead\<rparr>)
          else None)
     | SelDefault \<Rightarrow>
         (if ctxDone h \<or> slot_free h \<or> receiver_blocked h then None
          else Some (h\<lparr>pc := LoopHead\<rparr>)))"

text \<open>
  The deferred calls of \<open>DoRequestsFactory\<close>, last registered first:
  \<open>evenTicker.Stop()\<close>, \<open>rpsResetTicker.Stop()\<close> and \<open>close(rpsTokens)\<close> when the
  limiter was set up, then \<open>close(streams)\<close> and \<open>closeChannels()\<close>.
\<close>

definition deferred_calls :: "H2Client \<Rightarrow> H2Client" where
  "deferred_calls h =
    (let h1 = (if 0 <s Rps (Conf h)
               then (if RpsMode (Conf h) = RpsModeEven then h\<lparr>evenStopped := True\<rparr> else h)
                      \<lparr>resetStopped := True, rpsTokensClosed := True\<rparr>
               else h)
     in h1\<lparr>statsChanClosed := True, pc := Returned\<rparr>)"

text \<open>
  After the loop: \<open>streamsWg.Wait()\<close> returns once every launched task has called
  \<open>Done\<close>; the duration is stored and the call returns through its deferred calls.
  The value returned is \<open>firstErr\<close> of the resulting state.
\<close>

definition wait_return :: "int64 \<Rightarrow> H2Client \<Rightarrow> H2Client option" where
  "wait_return d h =
    (if list_all (\<lambda>t. t = TFinished) (tasks h)
     then Some (deferred_calls (h\<lparr>stats := (stats h)\<lparr>Duration := d\<rparr>\<rparr>))
     else None)"

text \<open>The steps of request task \<open>i\<close>.\<close>

definition complete :: "nat \<Rightarrow> transport_result \<Rightarrow> int64 \<Rightarrow> H2Client \<Rightarrow> H2Client option" where
  "complete i res latency h =
    (if i < length (tasks h) \<and> tasks h ! i = TRequest
     then (let (entry, err) = DoRequest res latency
           in Some (h\<lparr>statsChan := logStats (statsChan h) entry,
                        tasks := (tasks h)[i := TCheck err]\<rparr>))
     else None)"

definition load_err :: "nat \<Rightarrow> H2Client \<Rightarrow> H2Client option" where
  "load_err i h =
    (if i < length (tasks h)
     then (case tasks h ! i of
             TCheck err \<Rightarrow>
               (case err of
                  None \<Rightarrow> Some (h\<lparr>tasks := (tasks h)[i := TRelease]\<rparr>)
                | Some msg \<Rightarrow>
                    (if firstErr h = None
                     then Some (h\<lparr>tasks := (tasks h)[i := TStore msg]\<rparr>)
                     else Some (h\<lparr>tasks := (tasks h)[i := TRelease]\<rparr>)))
           | _ \<Rightarrow> None)
     else None)"

definition store_err :: "nat \<Rightarrow> H2Client \<Rightarrow> H2Client option" where
  "store_err i h =
    (if i < length (tasks h)
     then (case tasks h ! i of
             TStore msg \<Rightarrow> Some (h\<lparr>firstErr := Some msg, tasks := (tasks h)[i := TRelease]\<rparr>)
           | _ \<Rightarrow> None)
     else None)"

definition release :: "nat \<Rightarrow> H2Client \<Rightarrow> H2Client option" where
  "release i h =
    (if i < length (tasks h) \<and> tasks h ! i = TRelease \<and> 0 < streams h
     then Some (h\<lparr>streams := streams h - 1, tasks := (tasks h)[i := TWgDone]\<rparr>)
     else None)"

definition wg_done :: "nat \<Rightarrow> H2Client \<Rightarrow> H2Client option" where
  "wg_done i h =
    (if i < length (tasks h) \<and> tasks h ! i = TWgDone
     then Some (h\<lparr>tasks := (tasks h)[i := TFinished]\<rparr>)
     else None)"

text \<open>The statistics collector takes the oldest queued outcome.\<close>

definition collect :: "H2Client \<Rightarrow> H2Client option" where
  "collect h =
    (case statsChan h of
       [] \<Rightarrow> None
     | entry # rest \<Rightarrow> Some (h\<lparr>stats := statsCollector_entry (stats h) entry, statsChan := rest\<rparr>))"

text \<open>
  The rate limiter. A ticker that was not stopped puts a tick in its channel of
  capacity one (a tick finding it full is dropped); \<open>Stop\<close> does not close the channel.
\<close>

definition reset_tick :: "H2Client \<Rightarrow> H2Client option" where
  "reset_tick h =
    (if resetTask h \<noteq> None \<and> \<not> resetStopped h then Some (h\<lparr>resetPending := True\<rparr>) else None)"

definition even_tick :: "H2Client \<Rightarrow> H2Client option" where
  "even_tick h =
    (if evenTask h \<noteq> None \<and> \<not> evenStopped h then Some (h\<lparr>evenPending := True\<rparr>) else None)"

text \<open>
  \<open>for range rpsResetTicker.C\<close> receives a tick: in burst mode the loop
  \<open>for i := 0; i < h.Conf.Rps; i++\<close> is entered, in even mode the body does nothing.
\<close>

definition reset_recv :: "H2Client \<Rightarrow> H2Client option" where
  "reset_recv h =
    (if resetTask h = Some RWait \<and> resetPending h
     then Some (h\<lparr>resetPending := False,
                  resetTask := Some (if RpsMode (Conf h) = RpsModeBurst \<and> 0 <s Rps (Conf h)
                                     then RFill 0 else RWait)\<rparr>)
     else None)"

text \<open>\<open>i++\<close> and the loop test \<open>i < h.Conf.Rps\<close>.\<close>

definition next_fill :: "H2Client \<Rightarrow> int64 \<Rightarrow> reset_pc" where
  "next_fill h i = (if i + 1 <s Rps (Conf h) then RFill (i + 1) else RWait)"

text \<open>
  A send to \<open>rpsTokens\<close> (capacity \<open>Rps\<close>) can proceed when the buffer has room, and
  also when the channel is closed, where it panics.
\<close>

definition token_room :: "H2Client \<Rightarrow> bool" where
  "token_room h \<longleftrightarrow> int (rpsTokens h) < sint (Rps (Conf h))"

definition reset_sel :: "select_case \<Rightarrow> H2Client \<Rightarrow> H2Client option" where
  "reset_sel c h =
    (case resetTask h of
       Some (RFill i) \<Rightarrow>
         (case c of
            SelDone \<Rightarrow> (if ctxDone h then Some (h\<lparr>resetTask := Some RExited\<rparr>) else None)
          | SelComm \<Rightarrow>
              (if rpsTokensClosed h then Some (h\<lparr>pc := Panicked\<rparr>)
               else if token_room h
               then Some (h\<lparr>rpsTokens := rpsTokens h + 1, resetTask := Some (next_fill h i)\<rparr>)
               else None)
          | SelDefault \<Rightarrow>
              (if ctxDone h \<or> rpsTokensClosed h \<or> token_room h then None
               else Some (h\<lparr>resetTask := Some (next_fill h i)\<rparr>)))
     | _ \<Rightarrow> None)"

definition even_recv :: "H2Client \<Rightarrow> H2Client option" where
  "even_recv h =
    (if evenTask h = Some EWait \<and> evenPending h
     then Some (h\<lparr>evenPending := False, evenTask := Some ESelect\<rparr>)
     else None)"

definition even_sel :: "select_case \<Rightarrow> H2Client \<Rightarrow> H2Client option" where
  "even_sel c h =
    (if evenTask h = Some ESelect
     then (case c of
             SelDone \<Rightarrow> (if ctxDone h then Some (h\<lparr>evenTask := Some EExited\<rparr>) else None)
           | SelComm \<Rightarrow>
               (if rpsTokensClosed h then Some (h\<lparr>pc := Panicked\<rparr>)
                else if token_room h
                then Some (h\<lparr>rpsTokens := rpsTokens h + 1, evenTask := Some EWait\<rparr>)
                else None)
           | SelDefault \<Rightarrow>
               (if ctxDone h \<or> rpsTokensClosed h \<or> token_room h then None
                else Some (h\<lparr>evenTask := Some EWait\<rparr>)))
     else None)"

text \<open>One event. Nothing runs after a panic; the pump events need the pump at their control point.\<close>

definition fire :: "event \<Rightarrow> H2Client \<Rightarrow> H2Client option" where
  "fire e h =
    (if pc h = Panicked then None
     else (case e of
        Cancel \<Rightarrow> Some (h\<lparr>ctxDone := True\<rparr>)
      | Start \<Rightarrow> (if pc h = Idle then Some (start h) else None)
      | Loop c \<Rightarrow> (if pc h = LoopHead then loop_head c h else None)
      | Token c \<Rightarrow> (if pc h = WaitToken then wait_token c h else None)
      | Slot c \<Rightarrow> (if pc h = TrySlot then try_slot c h else None)
      | WaitReturn d \<Rightarrow> (if pc h = Drain then wait_return d h else None)
      | Complete i res latency \<Rightarrow> complete i res latency h
      | LoadErr i \<Rightarrow> load_err i h
      | StoreErr i \<Rightarrow> store_err i h
      | Release i \<Rightarrow> release i h
      | WgDone i \<Rightarrow> wg_done i h
      | Collect \<Rightarrow> collect h
      | ResetTick \<Rightarrow> reset_tick h
      | ResetRecv \<Rightarrow> reset_recv h
      | ResetSel c \<Rightarrow> reset_sel c h
      | EvenTick \<Rightarrow> even_tick h
      | EvenRecv \<Rightarrow> even_recv h
      | EvenSel c \<Rightarrow> even_sel c h))"

text \<open>A schedule, from a state: \<open>None\<close> when one of its events is not enabled.\<close>

fun run :: "event list \<Rightarrow> H2Client \<Rightarrow> H2Client option" where
  "run [] h = Some h"
| "run (e # es) h = (case fire e h of None \<Rightarrow> None | Some h' \<Rightarrow> run es h')"

text \<open>The request tasks that hold a concurrency slot: launched, slot not yet given back.\<close>

definition holds_slot :: "task \<Rightarrow> bool" where
  "holds_slot t \<longleftrightarrow> t \<noteq> TWgDone \<and> t \<noteq> TFinished"

definition in_flight :: "H2Client \<Rightarrow> nat" where
  "in_flight h = length (filter holds_slot (tasks h))"

section \<open>Invariants of a connection\<close>

text \<open>
  The slots taken from \<open>streams\<close> are the tasks in flight, within the capacity the
  channel was made with; a negative capacity makes \<open>make\<close> panic before any task.
\<close>

definition slots_inv :: "H2Client \<Rightarrow> bool" where
  "slots_inv h \<longleftrightarrow>
     in_flight h = streams h \<and>
     (if ConcurrentStreams (Conf h) <s 0
      then tasks h = [] \<and> (pc h = Idle \<or> pc h = Panicked)
      else int (streams h) \<le> sint (ConcurrentStreams (Conf h)))"

text \<open>
  With a ceiling set, the counter stays between 0 and the ceiling, is below it where the
  pump is about to count a request, and is at it where the loop was left without
  cancellation.
\<close>

definition count_inv :: "H2Client \<Rightarrow> bool" where
  "count_inv h \<longleftrightarrow>
     (0 <s Requests (Conf h) \<longrightarrow>
        0 \<le>s sentRequests h \<and> sentRequests h \<le>s Requests (Conf h) \<and>
        (pc h = WaitToken \<or> pc h = TrySlot \<longrightarrow> sentRequests h <s Requests (Conf h)) \<and>
        (\<not> ctxDone h \<and> (pc h = Drain \<or> pc h = Returned) \<longrightarrow>
           sentRequests h = Requests (Conf h)))"

text \<open>What holds of a connection whose slot channel has capacity zero.\<close>

definition no_slot_inv :: "H2Client \<Rightarrow> bool" where
  "no_slot_inv h \<longleftrightarrow> tasks h = [] \<and> streams h = 0 \<and> sentRequests h = 0"

section \<open>Concrete configurations and schedules\<close>

text \<open>
  Two connections' worth of requests on two streams: both requests are launched, the
  first is answered 200 and the second fails in the transport; in \<open>race_schedule\<close>
  both fail and both tasks load \<open>firstErr\<close> before either stores.
\<close>

definition example_conf :: H2loadConf where
  "example_conf = \<lparr>Protocol = [], ServerAddress = [], Requests = 2, Rate = 0, RatePeriod = 0,
     Rps = 0, RpsMode = RpsModeBurst, ConcurrentStreams = 2, Clients = 2,
     URL = ''https://example.com''\<rparr>"

definition launch_two :: "event list" where
  "launch_two = [Start, Loop SelDefault, Slot SelComm, Loop SelDefault, Slot SelComm]"

definition example_schedule :: "event list" where
  "example_schedule = launch_two @
     [Complete 0 (Response 200) 5, Complete 1 (TransportError ''timeout'') 7,
      LoadErr 0, LoadErr 1, StoreErr 1, Release 0, WgDone 0, Release 1, WgDone 1,
      Collect, Collect, Loop SelDefault, WaitReturn 100]"

definition example_launched :: H2Client where
  "example_launched = (fresh_client example_conf)\<lparr>sentRequests := 2, pc := LoopHead,
     streams := 2, tasks := [TRequest, TRequest]\<rparr>"

definition example_done :: H2Client where
  "example_done = (fresh_client example_conf)\<lparr>sentRequests := 2,
     stats := \<lparr>TotalRequests = 2, SuccessRequests = 1, FailedRequests = 1, MinLatency = 5,
       MaxLatency = 7, TotalLatency = 12, Duration = 100\<rparr>,
     statsChanClosed := True, pc := Returned, tasks := [TFinished, TFinished],
     firstErr := Some ''request failed: timeout''\<rparr>"

definition example_pool :: H2loadClient where
  "example_pool = \<lparr>Clients = [example_done, example_done], ClientsConf = example_conf\<rparr>"

definition race_schedule :: "event list" where
  "race_schedule = launch_two @
     [Complete 0 (TransportError ''first'') 5, Complete 1 (TransportError ''second'') 7,
      LoadErr 0, LoadErr 1, StoreErr 0, StoreErr 1, Release 0, WgDone 0, Release 1, WgDone 1,
      Collect, Collect, Loop SelDefault, WaitReturn 100]"

definition zero_streams_conf :: H2loadConf where
  "zero_streams_conf = example_conf\<lparr>ConcurrentStreams := 0\<rparr>"

text \<open>
  \<open>net/url\<close> belongs to the Go library, not to this package. The first check of its
  parser rejects a raw URL holding an ASCII control byte (\<open>b < ' ' || b == 0x7f\<close>);
  \<open>parse_without_control_bytes\<close> is a parser that rejects exactly those, used where a
  concrete parser is needed. The theorems on construction hold for any parser.
\<close>

definition stringContainsCTLByte :: "string \<Rightarrow> bool" where
  "stringContainsCTLByte s = list_ex (\<lambda>b. of_char b < (32 :: nat) \<or> of_char b = (127 :: nat)) s"

definition parse_without_control_bytes :: "string \<Rightarrow> bool" where
  "parse_without_control_bytes rawURL \<longleftrightarrow> \<not> stringContainsCTLByte rawURL"



definition no_clients_conf :: H2loadConf where
  "no_clients_conf = example_conf\<lparr>H2loadConf.Clients := 0\<rparr>"

definition race_prefix :: "event list" where
  "race_prefix = launch_two @
     [Complete 0 (TransportError ''first'') 5, Complete 1 (TransportError ''second'') 7,
      LoadErr 0, LoadErr 1, StoreErr 0]"

definition race_rest :: "event list" where
  "race_rest = [StoreErr 1, Release 0, WgDone 0, Release 1, WgDone 1,
      Collect, Collect, Loop SelDefault, WaitReturn 100]"

text \<open>
  A rate-limited run without a request ceiling, in either mode, stopped by
  cancellation before the first tick; and the burst refill caught by the cancellation
  inside its loop.
\<close>

definition limited_conf :: H2loadConf where
  "limited_conf = example_conf\<lparr>Requests := 0, Rps := 1\<rparr>"

definition even_conf :: H2loadConf where
  "even_conf = limited_conf\<lparr>RpsMode := RpsModeEven\<rparr>"

definition stop_schedule :: "event list" where
  "stop_schedule = [Start, Cancel, Loop SelDone, WaitReturn 100]"

definition race_first_stored :: H2Client where
  "race_first_stored = (fresh_client example_conf)\<lparr>sentRequests := 2,
     statsChan := [\<lparr>Status = 0, Latency = 5, Timestamp = []\<rparr>,
                   \<lparr>Status = 0, Latency = 7, Timestamp = []\<rparr>],
     pc := LoopHead, streams := 2,
     tasks := [TRelease, TStore ''request failed: second''],
     firstErr := Some ''request failed: first''\<rparr>"

definition race_done :: H2Client where
  "race_done = (fresh_client example_conf)\<lparr>sentRequests := 2,
     stats := \<lparr>TotalRequests = 2, SuccessRequests = 0, FailedRequests = 2, MinLatency = 5,
       MaxLatency = 7, TotalLatency = 12, Duration = 100\<rparr>,
     statsChanClosed := True, pc := Returned, tasks := [TFinished, TFinished],
     firstErr := Some ''request failed: second''\<rparr>"

definition stopped_burst :: H2Client where
  "stopped_burst = (fresh_client limited_conf)\<lparr>ctxDone := True,
     stats := zero_stats\<lparr>Duration := 100\<rparr>, statsChanClosed := True, pc := Returned,
     rpsTokensClosed := True, resetTask := Some RWait, resetStopped := True\<rparr>"

definition stopped_even :: H2Client where
  "stopped_even = (fresh_client even_conf)\<lparr>ctxDone := True,
     stats := zero_stats\<lparr>Duration := 100\<rparr>, statsChanClosed := True, pc := Returned,
     rpsTokensClosed := True, resetTask := Some RWait, resetStopped := True,
     evenTask := Some EWait, evenStopped := True\<rparr>"

definition cancelled_filling :: H2Client where
  "cancelled_filling = (fresh_client limited_conf)\<lparr>ctxDone := True, pc := LoopHead,
     resetTask := Some (RFill 0)\<rparr>"

text \<open>A goroutine parked at its stopped ticker's channel, with no tick left in it.\<close>

definition reset_parked :: "H2Client \<Rightarrow> bool" where
  "reset_parked h \<longleftrightarrow> resetTask h = Some RWait \<and> resetStopped h \<and> \<not> resetPending h"

definition even_parked :: "H2Client \<Rightarrow> bool" where
  "even_parked h \<longleftrightarrow> evenTask h = Some EWait \<and> evenStopped h \<and> \<not> evenPending h"




section \<open>The merge of section 3 of the specification\<close>

text \<open>
  The specification's words for the aggregate, on the signed values: the minimum of
  the per-connection minimum latencies, ignoring zero (the value before any outcome),
  and zero when there is none; the maximum of the per-connection values, zero for a
  pool without connections.
\<close>

definition spec_min_latency :: "int list \<Rightarrow> int" where
  "spec_min_latency mins =
    (let seen = filter (\<lambda>m. m \<noteq> 0) mins in if seen = [] then 0 else Min (set seen))"

definition spec_maximum :: "int list \<Rightarrow> int" where
  "spec_maximum xs = (if xs = [] then 0 else Max (set xs))"

section \<open>Statistics\<close>

lemma statsCollector_entry_counters:
  "TotalRequests (statsCollector_entry st e) = TotalRequests st + 1"
  "SuccessRequests (statsCollector_entry st e) =
     SuccessRequests st + (if 200 \<le>s Status e \<and> Status e <s 400 then 1 else 0)"
  "FailedRequests (statsCollector_entry st e) =
     FailedRequests st + (if 200 \<le>s Status e \<and> Status e <s 400 then 0 else 1)"
  by (simp_all add: statsCollector_entry_def Let_def)

lemma statsCollector_entry_agree:
  "counters_agree st \<Longrightarrow> counters_agree (statsCollector_entry st e)"
  unfolding counters_agree_def statsCollector_entry_counters by simp

lemma foldl_statsCollector_agree:
  "counters_agree st \<Longrightarrow> counters_agree (foldl statsCollector_entry st es)"
  by (induction es arbitrary: st) (simp_all add: statsCollector_entry_agree)

lemma zero_stats_agree: "counters_agree zero_stats"
  by (simp add: counters_agree_def zero_stats_def)

lemma statsCollector_agree: "counters_agree (statsCollector es)"
  unfolding statsCollector_def by (rule foldl_statsCollector_agree [OF zero_stats_agree])

lemma merge_stats_counters:
  "TotalRequests (merge_stats t st) = TotalRequests t + TotalRequests st"
  "SuccessRequests (merge_stats t st) = SuccessRequests t + SuccessRequests st"
  "FailedRequests (merge_stats t st) = FailedRequests t + FailedRequests st"
  "TotalLatency (merge_stats t st) = TotalLatency t + TotalLatency st"
  by (simp_all add: merge_stats_def Let_def)

lemma merge_stats_agree:
  "counters_agree t \<Longrightarrow> counters_agree st \<Longrightarrow> counters_agree (merge_stats t st)"
  unfolding counters_agree_def merge_stats_counters by (simp add: algebra_simps)

lemma foldl_merge_stats_agree:
  "counters_agree t \<Longrightarrow> list_all counters_agree sts \<Longrightarrow>
   counters_agree (foldl merge_stats t sts)"
  by (induction sts arbitrary: t) (simp_all add: merge_stats_agree)

section \<open>Events, case by case\<close>

lemma deferred_frame [simp]:
  "Conf (deferred_calls h) = Conf h" "ctxDone (deferred_calls h) = ctxDone h"
  "sentRequests (deferred_calls h) = sentRequests h" "stats (deferred_calls h) = stats h"
  "tasks (deferred_calls h) = tasks h" "streams (deferred_calls h) = streams h"
  "firstErr (deferred_calls h) = firstErr h" "rpsTokens (deferred_calls h) = rpsTokens h"
  "statsChan (deferred_calls h) = statsChan h"
  "resetTask (deferred_calls h) = resetTask h" "evenTask (deferred_calls h) = evenTask h"
  "resetPending (deferred_calls h) = resetPending h"
  "evenPending (deferred_calls h) = evenPending h"
  "pc (deferred_calls h) = Returned"
  "resetStopped h \<Longrightarrow> resetStopped (deferred_calls h)"
  "evenStopped h \<Longrightarrow> evenStopped (deferred_calls h)"
  by (simp_all add: deferred_calls_def Let_def)

lemma fire_cases [consumes 1, case_names Cancel Start LoopDone LoopCeiling LoopToken LoopSlot
    TokenDone TokenTake SlotDone SlotSend SlotHandOver SlotDefault WaitReturn Complete
    LoadNoErr LoadNil LoadSet StoreErr Release WgDone Collect ResetTick EvenTick ResetRecv
    ResetDone ResetPanic ResetSend ResetSkip EvenRecv EvenDone EvenPanic EvenSend EvenSkip]:
  assumes "fire e h = Some h'"
  obtains
    (Cancel) "e = Cancel" "h' = h\<lparr>ctxDone := True\<rparr>"
  | (Start) "e = Start" "pc h = Idle" "h' = start h"
  | (LoopDone) "e = Loop SelDone" "pc h = LoopHead" "ctxDone h" "h' = h\<lparr>pc := Drain\<rparr>"
  | (LoopCeiling) "e = Loop SelDefault" "pc h = LoopHead" "\<not> ctxDone h"
      "0 <s Requests (Conf h)" "Requests (Conf h) \<le>s sentRequests h" "h' = h\<lparr>pc := Drain\<rparr>"
  | (LoopToken) "e = Loop SelDefault" "pc h = LoopHead" "\<not> ctxDone h"
      "\<not> (0 <s Requests (Conf h) \<and> Requests (Conf h) \<le>s sentRequests h)"
      "0 <s Rps (Conf h)" "h' = h\<lparr>pc := WaitToken\<rparr>"
  | (LoopSlot) "e = Loop SelDefault" "pc h = LoopHead" "\<not> ctxDone h"
      "\<not> (0 <s Requests (Conf h) \<and> Requests (Conf h) \<le>s sentRequests h)"
      "\<not> 0 <s Rps (Conf h)" "h' = h\<lparr>pc := TrySlot\<rparr>"
  | (TokenDone) "e = Token SelDone" "pc h = WaitToken" "ctxDone h" "h' = h\<lparr>pc := Drain\<rparr>"
  | (TokenTake) "e = Token SelComm" "pc h = WaitToken" "0 < rpsTokens h"
      "h' = h\<lparr>rpsTokens := rpsTokens h - 1, pc := TrySlot\<rparr>"
  | (SlotDone) "e = Slot SelDone" "pc h = TrySlot" "ctxDone h" "h' = h\<lparr>pc := Drain\<rparr>"
  | (SlotSend) "e = Slot SelComm" "pc h = TrySlot" "slot_free h"
      "h' = h\<lparr>streams := streams h + 1, sentRequests := sentRequests h + 1,
                tasks := tasks h @ [TRequest], pc := LoopHead\<rparr>"
  | (SlotHandOver) "e = Slot SelComm" "pc h = TrySlot" "\<not> slot_free h" "receiver_blocked h"
      "h' = h\<lparr>sentRequests := sentRequests h + 1,
                tasks := hand_over (tasks h) @ [TRequest], pc := LoopHead\<rparr>"
  | (SlotDefault) "e = Slot SelDefault" "pc h = TrySlot" "\<not> ctxDone h" "\<not> slot_free h"
      "\<not> receiver_blocked h" "h' = h\<lparr>pc := LoopHead\<rparr>"
  | (WaitReturn) d where "e = WaitReturn d" "pc h = Drain" "list_all (\<lambda>t. t = TFinished) (tasks h)"
      "h' = deferred_calls (h\<lparr>stats := (stats h)\<lparr>Duration := d\<rparr>\<rparr>)"
  | (Complete) i res latency where "e = Complete i res latency" "i < length (tasks h)"
      "tasks h ! i = TRequest"
      "h' = h\<lparr>statsChan := logStats (statsChan h) (fst (DoRequest res latency)),
                tasks := (tasks h)[i := TCheck (snd (DoRequest res latency))]\<rparr>"
  | (LoadNoErr) i where "e = LoadErr i" "i < length (tasks h)" "tasks h ! i = TCheck None"
      "h' = h\<lparr>tasks := (tasks h)[i := TRelease]\<rparr>"
  | (LoadNil) i msg where "e = LoadErr i" "i < length (tasks h)" "tasks h ! i = TCheck (Some msg)"
      "firstErr h = None" "h' = h\<lparr>tasks := (tasks h)[i := TStore msg]\<rparr>"
  | (LoadSet) i msg where "e = LoadErr i" "i < length (tasks h)" "tasks h ! i = TCheck (Some msg)"
      "firstErr h \<noteq> None" "h' = h\<lparr>tasks := (tasks h)[i := TRelease]\<rparr>"
  | (StoreErr) i msg where "e = StoreErr i" "i < length (tasks h)" "tasks h ! i = TStore msg"
      "h' = h\<lparr>firstErr := Some msg, tasks := (tasks h)[i := TRelease]\<rparr>"
  | (Release) i where "e = Release i" "i < length (tasks h)" "tasks h ! i = TRelease"
      "0 < streams h" "h' = h\<lparr>streams := streams h - 1, tasks := (tasks h)[i := TWgDone]\<rparr>"
  | (WgDone) i where "e = WgDone i" "i < length (tasks h)" "tasks h ! i = TWgDone"
      "h' = h\<lparr>tasks := (tasks h)[i := TFinished]\<rparr>"
  | (Collect) entry rest where "e = Collect" "statsChan h = entry # rest"
      "h' = h\<lparr>stats := statsCollector_entry (stats h) entry, statsChan := rest\<rparr>"
  | (ResetTick) "e = ResetTick" "resetTask h \<noteq> None" "\<not> resetStopped h"
      "h' = h\<lparr>resetPending := True\<rparr>"
  | (EvenTick) "e = EvenTick" "evenTask h \<noteq> None" "\<not> evenStopped h"
      "h' = h\<lparr>evenPending := True\<rparr>"
  | (ResetRecv) "e = ResetRecv" "resetTask h = Some RWait" "resetPending h"
      "h' = h\<lparr>resetPending := False,
                resetTask := Some (if RpsMode (Conf h) = RpsModeBurst \<and> 0 <s Rps (Conf h)
                                   then RFill 0 else RWait)\<rparr>"
  | (ResetDone) i where "e = ResetSel SelDone" "resetTask h = Some (RFill i)" "ctxDone h"
      "h' = h\<lparr>resetTask := Some RExited\<rparr>"
  | (ResetPanic) i where "e = ResetSel SelComm" "resetTask h = Some (RFill i)" "rpsTokensClosed h"
      "h' = h\<lparr>pc := Panicked\<rparr>"
  | (ResetSend) i where "e = ResetSel SelComm" "resetTask h = Some (RFill i)"
      "\<not> rpsTokensClosed h" "token_room h"
      "h' = h\<lparr>rpsTokens := rpsTokens h + 1, resetTask := Some (next_fill h i)\<rparr>"
  | (ResetSkip) i where "e = ResetSel SelDefault" "resetTask h = Some (RFill i)" "\<not> ctxDone h"
      "\<not> rpsTokensClosed h" "\<not> token_room h" "h' = h\<lparr>resetTask := Some (next_fill h i)\<rparr>"
  | (EvenRecv) "e = EvenRecv" "evenTask h = Some EWait" "evenPending h"
      "h' = h\<lparr>evenPending := False, evenTask := Some ESelect\<rparr>"
  | (EvenDone) "e = EvenSel SelDone" "evenTask h = Some ESelect" "ctxDone h"
      "h' = h\<lparr>evenTask := Some EExited\<rparr>"
  | (EvenPanic) "e = EvenSel SelComm" "evenTask h = Some ESelect" "rpsTokensClosed h"
      "h' = h\<lparr>pc := Panicked\<rparr>"
  | (EvenSend) "e = EvenSel SelComm" "evenTask h = Some ESelect" "\<not> rpsTokensClosed h"
      "token_room h" "h' = h\<lparr>rpsTokens := rpsTokens h + 1, evenTask := Some EWait\<rparr>"
  | (EvenSkip) "e = EvenSel SelDefault" "evenTask h = Some ESelect" "\<not> ctxDone h"
      "\<not> rpsTokensClosed h" "\<not> token_room h" "h' = h\<lparr>evenTask := Some EWait\<rparr>"
proof (cases e)
  case Cancel
  with assms that(1) show ?thesis by (auto simp: fire_def split: if_splits)
next
  case Start
  with assms that(2) show ?thesis by (auto simp: fire_def split: if_splits)
next
  case (Loop c)
  with assms that(3,4,5,6) show ?thesis
    by (cases c) (auto simp: fire_def loop_head_def split: if_splits)
next
  case (Token c)
  with assms that(7,8) show ?thesis
    by (cases c) (auto simp: fire_def wait_token_def split: if_splits)
next
  case (Slot c)
  with assms that(9,10,11,12) show ?thesis
    by (cases c) (auto simp: fire_def try_slot_def split: if_splits)
next
  case (WaitReturn d)
  with assms that(13) show ?thesis
    by (auto simp: fire_def wait_return_def split: if_splits)
next
  case (Complete i res latency)
  with assms that(14) show ?thesis
    by (auto simp: fire_def complete_def split: if_splits prod.splits)
next
  case (LoadErr i)
  with assms that(15,16,17) show ?thesis
    by (auto simp: fire_def load_err_def split: if_splits task.splits option.splits)
next
  case (StoreErr i)
  with assms that(18) show ?thesis
    by (auto simp: fire_def store_err_def split: if_splits task.splits)
next
  case (Release i)
  with assms that(19) show ?thesis
    by (auto simp: fire_def release_def split: if_splits)
next
  case (WgDone i)
  with assms that(20) show ?thesis
    by (auto simp: fire_def wg_done_def split: if_splits)
next
  case Collect
  with assms that(21) show ?thesis
    by (auto simp: fire_def collect_def split: if_splits list.splits)
next
  case ResetTick
  with assms that(22) show ?thesis
    by (auto simp: fire_def reset_tick_def split: if_splits)
next
  case ResetRecv
  with assms that(24) show ?thesis
    by (auto simp: fire_def reset_recv_def split: if_splits)
next
  case (ResetSel c)
  with assms have rs: "reset_sel c h = Some h'"
    by (simp add: fire_def split: if_splits)
  then obtain i where i: "resetTask h = Some (RFill i)"
    by (cases "resetTask h") (auto simp: reset_sel_def split: reset_pc.splits)
  show ?thesis
  proof (cases c)
    case SelDone
    with rs i have "ctxDone h" "h' = h\<lparr>resetTask := Some RExited\<rparr>"
      by (auto simp: reset_sel_def split: if_splits)
    with that(25) ResetSel SelDone i show ?thesis by blast
  next
    case SelComm
    show ?thesis
    proof (cases "rpsTokensClosed h")
      case True
      with rs i SelComm have "h' = h\<lparr>pc := Panicked\<rparr>" by (simp add: reset_sel_def)
      with that(26) ResetSel SelComm i True show ?thesis by blast
    next
      case False
      with rs i SelComm have "token_room h"
        "h' = h\<lparr>rpsTokens := rpsTokens h + 1, resetTask := Some (next_fill h i)\<rparr>"
        by (auto simp: reset_sel_def split: if_splits)
      with that(27) ResetSel SelComm i False show ?thesis by blast
    qed
  next
    case SelDefault
    with rs i have "\<not> ctxDone h" "\<not> rpsTokensClosed h" "\<not> token_room h"
      "h' = h\<lparr>resetTask := Some (next_fill h i)\<rparr>"
      by (auto simp: reset_sel_def split: if_splits)
    with that(28) ResetSel SelDefault i show ?thesis by blast
  qed
next
  case EvenTick
  with assms that(23) show ?thesis
    by (auto simp: fire_def even_tick_def split: if_splits)
next
  case EvenRecv
  with assms that(29) show ?thesis
    by (auto simp: fire_def even_recv_def split: if_splits)
next
  case (EvenSel c)
  with assms have rs: "even_sel c h = Some h'"
    by (simp add: fire_def split: if_splits)
  then have i: "evenTask h = Some ESelect"
    by (auto simp: even_sel_def split: if_splits)
  show ?thesis
  proof (cases c)
    case SelDone
    with rs i have "ctxDone h" "h' = h\<lparr>evenTask := Some EExited\<rparr>"
      by (auto simp: even_sel_def split: if_splits)
    with that(30) EvenSel SelDone i show ?thesis by blast
  next
    case SelComm
    show ?thesis
    proof (cases "rpsTokensClosed h")
      case True
      with rs i SelComm have "h' = h\<lparr>pc := Panicked\<rparr>" by (simp add: even_sel_def)
      with that(31) EvenSel SelComm i True show ?thesis by blast
    next
      case False
      with rs i SelComm have "token_room h"
        "h' = h\<lparr>rpsTokens := rpsTokens h + 1, evenTask := Some EWait\<rparr>"
        by (auto simp: even_sel_def split: if_splits)
      with that(32) EvenSel SelComm i False show ?thesis by blast
    qed
  next
    case SelDefault
    with rs i have "\<not> ctxDone h" "\<not> rpsTokensClosed h" "\<not> token_room h"
      "h' = h\<lparr>evenTask := Some EWait\<rparr>"
      by (auto simp: even_sel_def split: if_splits)
    with that(33) EvenSel SelDefault i show ?thesis by blast
  qed
qed

lemma run_invariant:
  assumes "run evs h = Some h'" and "P h"
    and "\<And>e a b. P a \<Longrightarrow> fire e a = Some b \<Longrightarrow> P b"
  shows "P h'"
  using assms(1,2)
proof (induction evs arbitrary: h)
  case Nil
  then show ?case by simp
next
  case (Cons e evs)
  then obtain m where m: "fire e h = Some m" "run evs m = Some h'"
    by (auto split: option.splits)
  from assms(3) [OF Cons.prems(2) m(1)] have "P m" .
  with Cons.IH [OF m(2)] show ?case .
qed

lemma run_append:
  "run (as @ bs) h = (case run as h of None \<Rightarrow> None | Some m \<Rightarrow> run bs m)"
  by (induction as arbitrary: h) (simp_all split: option.splits)

section \<open>The invariants hold along every schedule\<close>

lemma fire_Conf: "fire e h = Some h' \<Longrightarrow> Conf h' = Conf h"
  by (cases rule: fire_cases) (auto simp: start_def Let_def)

lemma run_Conf: "run evs h = Some h' \<Longrightarrow> Conf h' = Conf h"
  by (induction evs arbitrary: h) (auto split: option.splits dest: fire_Conf)

lemma fire_counters_agree:
  assumes "fire e h = Some h'" "counters_agree (stats h)"
  shows "counters_agree (stats h')"
  using assms
proof (cases rule: fire_cases)
  case (Collect entry rest)
  with assms(2) show ?thesis by (simp add: statsCollector_entry_agree)
next
  case (WaitReturn d)
  with assms(2) show ?thesis by (simp add: counters_agree_def)
qed (auto simp: start_def Let_def)

lemma in_flight_update:
  "i < length ts \<Longrightarrow>
   length (filter holds_slot (ts[i := t])) + (if holds_slot (ts ! i) then 1 else 0) =
     length (filter holds_slot ts) + (if holds_slot t then 1 else 0)"
proof (induction ts arbitrary: i)
  case Nil
  then show ?case by simp
next
  case (Cons a ts)
  show ?case
  proof (cases i)
    case 0
    then show ?thesis by simp
  next
    case (Suc j)
    with Cons.prems have j: "j < length ts" by simp
    from Cons.IH [OF j] Suc show ?thesis by auto
  qed
qed

lemma in_flight_pos: "t \<in> set ts \<Longrightarrow> holds_slot t \<Longrightarrow> 0 < length (filter holds_slot ts)"
  by (auto simp: filter_empty_conv)

lemma task_step_slots:
  assumes "slots_inv h" "i < length (tasks h)" "holds_slot (tasks h ! i)" "holds_slot t"
    "Conf h' = Conf h" "streams h' = streams h" "pc h' = pc h" "tasks h' = (tasks h)[i := t]"
  shows "slots_inv h'"
  using assms in_flight_update [of i "tasks h" t]
  by (auto simp: slots_inv_def in_flight_def)

lemma fire_slots_inv:
  assumes "fire e h = Some h'" "slots_inv h"
  shows "slots_inv h'"
  using assms
proof (cases rule: fire_cases)
  case Start
  with assms(2) show ?thesis
    by (auto simp: slots_inv_def in_flight_def start_def Let_def split: if_splits)
next
  case SlotSend
  with assms(2) show ?thesis
    by (auto simp: slots_inv_def in_flight_def slot_free_def holds_slot_def split: if_splits)
next
  case SlotHandOver
  from SlotHandOver(4) have "streams h = 0" "TRelease \<in> set (tasks h)"
    by (simp_all add: receiver_blocked_def)
  with in_flight_pos [of TRelease "tasks h"] assms(2) have False
    by (simp add: slots_inv_def in_flight_def holds_slot_def)
  then show ?thesis ..
next
  case (Complete i res latency)
  with assms(2) show ?thesis
    by (intro task_step_slots [of h i _ h']) (simp_all add: holds_slot_def)
next
  case (LoadNoErr i)
  with assms(2) show ?thesis
    by (intro task_step_slots [of h i _ h']) (simp_all add: holds_slot_def)
next
  case (LoadNil i msg)
  with assms(2) show ?thesis
    by (intro task_step_slots [of h i _ h']) (simp_all add: holds_slot_def)
next
  case (LoadSet i msg)
  with assms(2) show ?thesis
    by (intro task_step_slots [of h i _ h']) (simp_all add: holds_slot_def)
next
  case (StoreErr i msg)
  with assms(2) show ?thesis
    by (intro task_step_slots [of h i _ h']) (simp_all add: holds_slot_def)
next
  case (Release i)
  with assms(2) in_flight_update [of i "tasks h" TWgDone] show ?thesis
    by (auto simp: slots_inv_def in_flight_def holds_slot_def split: if_splits)
next
  case (WgDone i)
  with assms(2) in_flight_update [of i "tasks h" TFinished] show ?thesis
    by (auto simp: slots_inv_def in_flight_def holds_slot_def split: if_splits)
qed (auto simp: slots_inv_def in_flight_def split: if_splits)

lemma sle_antisym:
  fixes a b :: int64
  shows "a \<le>s b \<Longrightarrow> b \<le>s a \<Longrightarrow> a = b"
  by (rule signed.order.antisym)

lemma sle_succ:
  fixes a n :: int64
  assumes "a <s n" "0 \<le>s a"
  shows "0 \<le>s a + 1" "a + 1 \<le>s n"
  using assms sint_succ_below [OF assms(1)] by (simp_all add: word_sle_eq word_sless_alt)

lemma fire_count_inv:
  assumes "fire e h = Some h'" "count_inv h"
  shows "count_inv h'"
  using assms
proof (cases rule: fire_cases)
  case Start
  with assms(2) show ?thesis by (auto simp: count_inv_def start_def Let_def)
next
  case SlotSend
  with assms(2) show ?thesis by (auto simp: count_inv_def sle_succ)
next
  case SlotHandOver
  with assms(2) show ?thesis by (auto simp: count_inv_def sle_succ)
next
  case LoopCeiling
  with assms(2) show ?thesis by (auto simp: count_inv_def intro: sle_antisym)
next
  case LoopToken
  with assms(2) show ?thesis by (auto simp: count_inv_def word_sle_eq word_sless_alt)
next
  case LoopSlot
  with assms(2) show ?thesis by (auto simp: count_inv_def word_sle_eq word_sless_alt)
qed (auto simp: count_inv_def)

lemma fresh_invs:
  "slots_inv (fresh_client conf)" "count_inv (fresh_client conf)"
  "counters_agree (stats (fresh_client conf))" "no_slot_inv (fresh_client conf)"
  by (auto simp: slots_inv_def count_inv_def fresh_client_def in_flight_def zero_stats_agree
      no_slot_inv_def word_sle_eq word_sless_alt)

lemma reachable_slots_inv: "run evs (fresh_client conf) = Some h \<Longrightarrow> slots_inv h"
  by (erule run_invariant [where P = slots_inv]) (simp_all add: fresh_invs fire_slots_inv)

lemma reachable_count_inv: "run evs (fresh_client conf) = Some h \<Longrightarrow> count_inv h"
  by (erule run_invariant [where P = count_inv]) (simp_all add: fresh_invs fire_count_inv)

lemma reachable_counters_agree:
  "run evs (fresh_client conf) = Some h \<Longrightarrow> counters_agree (stats h)"
  by (erule run_invariant [where P = "\<lambda>h. counters_agree (stats h)"])
     (simp_all add: fresh_invs fire_counters_agree)

lemma reachable_Conf: "run evs (fresh_client conf) = Some h \<Longrightarrow> Conf h = conf"
  by (drule run_Conf) (simp add: fresh_client_def)

lemma fire_no_slot_inv:
  assumes "fire e h = Some h'" "ConcurrentStreams (Conf h) = 0" "no_slot_inv h"
  shows "no_slot_inv h'"
  using assms
  by (cases rule: fire_cases)
     (auto simp: no_slot_inv_def start_def Let_def slot_free_def receiver_blocked_def)

lemma reachable_no_slot_inv:
  assumes "run evs (fresh_client conf) = Some h" "ConcurrentStreams conf = 0"
  shows "no_slot_inv h"
proof -
  have "no_slot_inv h \<and> Conf h = conf"
    using assms(1)
  proof (rule run_invariant [where P = "\<lambda>h. no_slot_inv h \<and> Conf h = conf"])
    show "no_slot_inv (fresh_client conf) \<and> Conf (fresh_client conf) = conf"
      by (simp add: fresh_invs) (simp add: fresh_client_def)
  next
    fix e a b
    assume "no_slot_inv a \<and> Conf a = conf" "fire e a = Some b"
    with assms(2) show "no_slot_inv b \<and> Conf b = conf"
      using fire_no_slot_inv [of e a b] fire_Conf [of e a b] by simp
  qed
  then show ?thesis ..
qed

lemma total_of_agree: "list_all counters_agree sts \<Longrightarrow> counters_agree (total_of sts)"
  unfolding total_of_def by (rule foldl_merge_stats_agree [OF zero_stats_agree])

section \<open>The counters of the statistics\<close>

text \<open>
  C1. For every connection and for the pool aggregate, after every statistics update
  the counters satisfy \<open>SuccessRequests + FailedRequests = TotalRequests\<close>: it holds
  in every state a connection reaches, for the total \<open>GetTotalStats\<close> computes from
  such connections, after the collector has taken any list of outcomes, and is kept by
  every update; an update counts the outcome as
  successful exactly when \<open>200 \<le> status < 400\<close> and as failed otherwise, the outcome
  \<open>DoRequest\<close> reports for a transport failure (status 0) among the failed ones.
\<close>

theorem counters_sum_to_total:
  assumes "\<forall>h \<in> set (Clients pool). \<exists>conf evs. run evs (fresh_client conf) = Some h"
  shows "(\<forall>h \<in> set (Clients pool). counters_agree (stats h)) \<and>
         counters_agree (GetTotalStats pool) \<and>
         (\<forall>entries. counters_agree (statsCollector entries)) \<and>
         (\<forall>st e. counters_agree st \<longrightarrow> counters_agree (statsCollector_entry st e)) \<and>
         (\<forall>st e. TotalRequests (statsCollector_entry st e) = TotalRequests st + 1 \<and>
            SuccessRequests (statsCollector_entry st e) =
              SuccessRequests st + (if 200 \<le>s Status e \<and> Status e <s 400 then 1 else 0) \<and>
            FailedRequests (statsCollector_entry st e) =
              FailedRequests st + (if 200 \<le>s Status e \<and> Status e <s 400 then 0 else 1)) \<and>
         (\<forall>st msg latency.
            FailedRequests (statsCollector_entry st (fst (DoRequest (TransportError msg) latency)))
              = FailedRequests st + 1)"
proof -
  have each: "\<forall>h \<in> set (Clients pool). counters_agree (stats h)"
    using assms reachable_counters_agree by blast
  then have "list_all counters_agree (map stats (Clients pool))"
    by (simp add: list_all_iff)
  then have total: "counters_agree (GetTotalStats pool)"
    unfolding GetTotalStats_def by (rule total_of_agree)
  have sentinel: "\<And>st msg latency.
      FailedRequests (statsCollector_entry st (fst (DoRequest (TransportError msg) latency)))
        = FailedRequests st + 1"
    by (simp add: statsCollector_entry_counters DoRequest_def word_sle_eq)
  from each total sentinel show ?thesis
    by (simp add: statsCollector_entry_counters statsCollector_entry_agree statsCollector_agree)
qed

section \<open>The request ceiling\<close>








section \<open>The concurrency cap\<close>

lemma start_frame:
  "tasks (start h) = tasks h" "streams (start h) = streams h" "Conf (start h) = Conf h"
  "sentRequests (start h) = sentRequests h" "stats (start h) = stats h"
  "ctxDone (start h) = ctxDone h"
  by (simp_all add: start_def Let_def)

lemma fire_launch:
  assumes "fire e h = Some h'" "slots_inv h" "length (tasks h') \<noteq> length (tasks h)"
  shows "e = Slot SelComm \<and> slot_free h \<and> streams h' = streams h + 1 \<and>
         tasks h' = tasks h @ [TRequest]"
  using assms
proof (cases rule: fire_cases)
  case SlotHandOver
  from SlotHandOver(4) have "streams h = 0" "TRelease \<in> set (tasks h)"
    by (simp_all add: receiver_blocked_def)
  with in_flight_pos [of TRelease "tasks h"] assms(2) have False
    by (simp add: slots_inv_def in_flight_def holds_slot_def)
  then show ?thesis ..
qed (auto simp: start_frame)

lemma fire_give_back:
  assumes "fire e h = Some h'" "streams h' < streams h"
  shows "\<exists>i. e = Release i \<and> i < length (tasks h) \<and> tasks h ! i = TRelease \<and>
             tasks h' = (tasks h)[i := TWgDone] \<and> streams h' = streams h - 1"
  using assms by (cases rule: fire_cases) (auto simp: start_frame)

text \<open>
  C4. In every state one connection's pump reaches, the request tasks in flight are
  as many as the slots taken from \<open>streams\<close> and no more than \<open>ConcurrentStreams\<close>
  (none at all when that is negative, where \<open>make\<close> panics); a task is launched only
  by the send case of the \<open>select\<close> on \<open>streams\<close>, which takes a free slot, and a slot
  is given back only by a task that has finished its request and is at \<open><-streams\<close>.
\<close>

theorem in_flight_within_streams:
  assumes "run evs (fresh_client conf) = Some h"
  shows "in_flight h = streams h \<and>
         (0 \<le>s ConcurrentStreams conf \<longrightarrow> int (in_flight h) \<le> sint (ConcurrentStreams conf)) \<and>
         (ConcurrentStreams conf <s 0 \<longrightarrow> in_flight h = 0) \<and>
         (\<forall>e h'. fire e h = Some h' \<longrightarrow>
            (length (tasks h') \<noteq> length (tasks h) \<longrightarrow>
               e = Slot SelComm \<and> slot_free h \<and> streams h' = streams h + 1 \<and>
               tasks h' = tasks h @ [TRequest]) \<and>
            (streams h' < streams h \<longrightarrow>
               (\<exists>i. e = Release i \<and> i < length (tasks h) \<and> tasks h ! i = TRelease \<and>
                    tasks h' = (tasks h)[i := TWgDone] \<and> streams h' = streams h - 1)))"
proof -
  have conf: "Conf h = conf" using assms by (rule reachable_Conf)
  have inv: "slots_inv h" using assms by (rule reachable_slots_inv)
  from inv conf have a: "in_flight h = streams h"
    "0 \<le>s ConcurrentStreams conf \<longrightarrow> int (in_flight h) \<le> sint (ConcurrentStreams conf)"
    "ConcurrentStreams conf <s 0 \<longrightarrow> in_flight h = 0"
    by (auto simp: slots_inv_def in_flight_def word_sle_eq word_sless_alt split: if_splits)
  from a inv fire_launch fire_give_back show ?thesis by blast
qed

section \<open>A slot pool of capacity zero\<close>

text \<open>
  C10. A configuration with \<open>ConcurrentStreams = 0\<close> passes validation (when its
  URL is not empty and its other numeric fields are not negative). In every state of
  a run with \<open>Requests > 0\<close> and no cancellation the send to \<open>streams\<close> is not
  enabled, no task was launched, the counter is 0 and below the ceiling, and the pump
  has not left its loop, in which it keeps turning: from the loop head to the next
  \<open>select\<close>, and from the \<open>select\<close> on \<open>streams\<close> back through \<open>default\<close>.
\<close>

theorem zero_streams_never_dispatch:
  assumes "ConcurrentStreams conf = 0" and "0 <s Requests conf"
    and "run evs (fresh_client conf) = Some h" and "\<not> ctxDone h"
  shows "(URL conf \<noteq> [] \<and> 0 \<le>s Rate conf \<and> 0 \<le>s RatePeriod conf \<and> 0 \<le>s Rps conf \<and>
            0 \<le>s H2loadConf.Clients conf \<longrightarrow> Validate conf = None) \<and>
         \<not> slot_free h \<and> fire (Slot SelComm) h = None \<and>
         tasks h = [] \<and> in_flight h = 0 \<and> sentRequests h = 0 \<and>
         sentRequests h <s Requests conf \<and>
         pc h \<noteq> Drain \<and> pc h \<noteq> Returned \<and>
         (pc h = LoopHead \<longrightarrow>
            fire (Loop SelDefault) h =
              Some (h\<lparr>pc := (if 0 <s Rps conf then WaitToken else TrySlot)\<rparr>)) \<and>
         (pc h = TrySlot \<longrightarrow> fire (Slot SelDefault) h = Some (h\<lparr>pc := LoopHead\<rparr>))"
proof -
  have conf: "Conf h = conf" using assms(3) by (rule reachable_Conf)
  have "no_slot_inv h" using assms(3,1) by (rule reachable_no_slot_inv)
  then have empty: "tasks h = []" "streams h = 0" "sentRequests h = 0"
    by (simp_all add: no_slot_inv_def)
  have valid: "URL conf \<noteq> [] \<and> 0 \<le>s Rate conf \<and> 0 \<le>s RatePeriod conf \<and> 0 \<le>s Rps conf \<and>
            0 \<le>s H2loadConf.Clients conf \<longrightarrow> Validate conf = None"
    using assms(1,2) by (auto simp: Validate_def word_sle_eq word_sless_alt)
  have nofree: "\<not> slot_free h" "\<not> receiver_blocked h"
    using conf assms(1) empty by (simp_all add: slot_free_def receiver_blocked_def)
  then have nosend: "fire (Slot SelComm) h = None"
    by (simp add: fire_def try_slot_def)
  have below: "sentRequests h <s Requests conf" using empty assms(2) by simp
  have "count_inv h" using assms(3) by (rule reachable_count_inv)
  with conf assms(2,4) below have running: "pc h \<noteq> Drain" "pc h \<noteq> Returned"
    by (auto simp: count_inv_def)
  have notceil: "\<not> Requests conf \<le>s sentRequests h"
    using below by (simp add: word_sle_eq word_sless_alt)
  have head: "pc h = LoopHead \<longrightarrow>
            fire (Loop SelDefault) h =
              Some (h\<lparr>pc := (if 0 <s Rps conf then WaitToken else TrySlot)\<rparr>)"
    using conf assms(4) notceil by (simp add: fire_def loop_head_def)
  have spin: "pc h = TrySlot \<longrightarrow> fire (Slot SelDefault) h = Some (h\<lparr>pc := LoopHead\<rparr>)"
    using assms(4) nofree by (simp add: fire_def try_slot_def)
  from valid nofree(1) nosend empty below running head spin show ?thesis
    by (simp add: in_flight_def)
qed

section \<open>Aggregation across connections\<close>

lemma sint_zero_iff:
  fixes x :: int64
  shows "sint x = 0 \<longleftrightarrow> x = 0"
proof
  assume "sint x = 0"
  then have "x \<le>s 0" "0 \<le>s x" by (simp_all add: word_sle_eq)
  then show "x = 0" by (rule sle_antisym)
qed simp

lemma merge_stats_extremes:
  "MinLatency (merge_stats t st) =
     (if MinLatency t = 0 \<or> (0 <s MinLatency st \<and> MinLatency st <s MinLatency t)
      then MinLatency st else MinLatency t)"
  "MaxLatency (merge_stats t st) =
     (if MaxLatency t <s MaxLatency st then MaxLatency st else MaxLatency t)"
  "Duration (merge_stats t st) =
     (if Duration t <s Duration st then Duration st else Duration t)"
  by (simp_all add: merge_stats_def Let_def)

lemma foldl_merge_sums:
  "TotalRequests (foldl merge_stats t sts) = TotalRequests t + sum_list (map TotalRequests sts)"
  "SuccessRequests (foldl merge_stats t sts) =
     SuccessRequests t + sum_list (map SuccessRequests sts)"
  "FailedRequests (foldl merge_stats t sts) = FailedRequests t + sum_list (map FailedRequests sts)"
  "TotalLatency (foldl merge_stats t sts) = TotalLatency t + sum_list (map TotalLatency sts)"
  by (induction sts arbitrary: t) (simp_all add: merge_stats_counters add.assoc)

lemma foldl_merge_max:
  "sint (MaxLatency (foldl merge_stats t sts)) =
     fold max (map (\<lambda>st. sint (MaxLatency st)) sts) (sint (MaxLatency t))"
  by (induction sts arbitrary: t)
     (simp_all add: merge_stats_extremes word_sless_alt max_def)

lemma foldl_merge_duration:
  "sint (Duration (foldl merge_stats t sts)) =
     fold max (map (\<lambda>st. sint (Duration st)) sts) (sint (Duration t))"
  by (induction sts arbitrary: t)
     (simp_all add: merge_stats_extremes word_sless_alt max_def)

lemma fold_max_from_zero:
  fixes xs :: "int list"
  assumes "\<forall>x \<in> set xs. 0 \<le> x"
  shows "fold max xs 0 = spec_maximum xs"
proof (cases xs)
  case Nil
  then show ?thesis by (simp add: spec_maximum_def)
next
  case (Cons y ys)
  with assms have "max y 0 = y" by simp
  moreover have "Max (set (y # ys)) = fold max ys y" by (rule Max.set_eq_fold)
  ultimately show ?thesis using Cons by (simp add: spec_maximum_def)
qed

lemma spec_min_Cons:
  "spec_min_latency (y # rest) =
     (if y = 0 then spec_min_latency rest
      else if filter (\<lambda>m. m \<noteq> 0) rest = [] then y
      else min y (spec_min_latency rest))"
proof -
  have "Min (insert y (set (filter (\<lambda>m. m \<noteq> 0) rest))) =
        min y (Min (set (filter (\<lambda>m. m \<noteq> 0) rest)))"
    if "filter (\<lambda>m. m \<noteq> 0) rest \<noteq> []"
    using that by (intro Min_insert) (auto simp: filter_empty_conv)
  then show ?thesis
    by (simp add: spec_min_latency_def Let_def del: set_filter)
qed

lemma spec_min_step:
  fixes a x :: int
  assumes "0 \<le> a" "0 \<le> x"
  shows "spec_min_latency ((if a = 0 \<or> (0 < x \<and> x < a) then x else a) # rest) =
         spec_min_latency (a # x # rest)"
  using assms by (auto simp: spec_min_Cons min_def)

lemma foldl_merge_min:
  assumes "0 \<le>s MinLatency t" "\<forall>st \<in> set sts. 0 \<le>s MinLatency st"
  shows "sint (MinLatency (foldl merge_stats t sts)) =
         spec_min_latency (sint (MinLatency t) # map (\<lambda>st. sint (MinLatency st)) sts)"
  using assms
proof (induction sts arbitrary: t)
  case Nil
  then show ?case by (simp add: spec_min_latency_def)
next
  case (Cons st sts)
  let ?a = "sint (MinLatency t)" and ?x = "sint (MinLatency st)"
  from Cons.prems have nn: "0 \<le> ?a" "0 \<le> ?x" by (simp_all add: word_sle_eq)
  have step: "sint (MinLatency (merge_stats t st)) = (if ?a = 0 \<or> (0 < ?x \<and> ?x < ?a) then ?x else ?a)"
    by (simp add: merge_stats_extremes word_sless_alt sint_zero_iff)
  with nn have "0 \<le>s MinLatency (merge_stats t st)" by (simp add: word_sle_eq)
  with Cons.IH [of "merge_stats t st"] Cons.prems(2)
  have "sint (MinLatency (foldl merge_stats (merge_stats t st) sts)) =
        spec_min_latency (sint (MinLatency (merge_stats t st)) # map (\<lambda>st. sint (MinLatency st)) sts)"
    by simp
  also have "\<dots> = spec_min_latency (?a # ?x # map (\<lambda>st. sint (MinLatency st)) sts)"
    unfolding step by (rule spec_min_step [OF nn])
  finally show ?case by simp
qed

lemma spec_min_drop_zero: "spec_min_latency (0 # xs) = spec_min_latency xs"
  by (simp add: spec_min_latency_def)

text \<open>
  C2. For every pool whose per-connection latencies and durations are not negative
  (they are elapsed times), \<open>GetTotalStats\<close> gives the minimum of the per-connection
  minimum latencies ignoring zero, the maximum of the maximum latencies, the sums of
  the request counts and of the latency sums, and the longest duration; for the
  per-connection values min 5, 3, 8, max 50, 40, 60, total latency 100, 90, 110,
  requests 10, 9, 11 and durations 2s, 3s, 1s it gives min 3, max 60, 30 requests
  and 3s.
\<close>

theorem total_stats_merge:
  assumes "\<forall>h \<in> set (Clients pool).
             0 \<le>s MinLatency (stats h) \<and> 0 \<le>s MaxLatency (stats h) \<and> 0 \<le>s Duration (stats h)"
  shows "sint (MinLatency (GetTotalStats pool)) =
           spec_min_latency (map (\<lambda>h. sint (MinLatency (stats h))) (Clients pool)) \<and>
         sint (MaxLatency (GetTotalStats pool)) =
           spec_maximum (map (\<lambda>h. sint (MaxLatency (stats h))) (Clients pool)) \<and>
         sint (Duration (GetTotalStats pool)) =
           spec_maximum (map (\<lambda>h. sint (Duration (stats h))) (Clients pool)) \<and>
         TotalRequests (GetTotalStats pool) =
           sum_list (map (\<lambda>h. TotalRequests (stats h)) (Clients pool)) \<and>
         SuccessRequests (GetTotalStats pool) =
           sum_list (map (\<lambda>h. SuccessRequests (stats h)) (Clients pool)) \<and>
         FailedRequests (GetTotalStats pool) =
           sum_list (map (\<lambda>h. FailedRequests (stats h)) (Clients pool)) \<and>
         TotalLatency (GetTotalStats pool) =
           sum_list (map (\<lambda>h. TotalLatency (stats h)) (Clients pool)) \<and>
         (let total = GetTotalStats \<lparr>Clients = map (\<lambda>st. (fresh_client conf)\<lparr>stats := st\<rparr>)
              [\<lparr>TotalRequests = 10, SuccessRequests = s1, FailedRequests = f1, MinLatency = 5,
                 MaxLatency = 50, TotalLatency = 100, Duration = 2000000000\<rparr>,
               \<lparr>TotalRequests = 9, SuccessRequests = s2, FailedRequests = f2, MinLatency = 3,
                 MaxLatency = 40, TotalLatency = 90, Duration = 3000000000\<rparr>,
               \<lparr>TotalRequests = 11, SuccessRequests = s3, FailedRequests = f3, MinLatency = 8,
                 MaxLatency = 60, TotalLatency = 110, Duration = 1000000000\<rparr>],
              ClientsConf = conf\<rparr>
          in MinLatency total = 3 \<and> MaxLatency total = 60 \<and> TotalRequests total = 30 \<and>
             Duration total = 3000000000)"
proof -
  let ?sts = "map stats (Clients pool)"
  have nn: "\<forall>st \<in> set ?sts. 0 \<le>s MinLatency st" using assms by simp
  have "sint (MinLatency (GetTotalStats pool)) =
        spec_min_latency (sint (MinLatency zero_stats) # map (\<lambda>st. sint (MinLatency st)) ?sts)"
    unfolding GetTotalStats_def total_of_def
    by (rule foldl_merge_min [OF _ nn]) (simp add: zero_stats_def)
  then have a: "sint (MinLatency (GetTotalStats pool)) =
           spec_min_latency (map (\<lambda>h. sint (MinLatency (stats h))) (Clients pool))"
    by (simp add: zero_stats_def spec_min_drop_zero comp_def)
  have b: "sint (MaxLatency (GetTotalStats pool)) =
           spec_maximum (map (\<lambda>h. sint (MaxLatency (stats h))) (Clients pool))"
    using assms fold_max_from_zero [of "map (\<lambda>h. sint (MaxLatency (stats h))) (Clients pool)"]
    by (simp add: GetTotalStats_def total_of_def foldl_merge_max zero_stats_def comp_def
        word_sle_eq)
  have c: "sint (Duration (GetTotalStats pool)) =
           spec_maximum (map (\<lambda>h. sint (Duration (stats h))) (Clients pool))"
    using assms fold_max_from_zero [of "map (\<lambda>h. sint (Duration (stats h))) (Clients pool)"]
    by (simp add: GetTotalStats_def total_of_def foldl_merge_duration zero_stats_def comp_def
        word_sle_eq)
  have d: "TotalRequests (GetTotalStats pool) =
           sum_list (map (\<lambda>h. TotalRequests (stats h)) (Clients pool))"
    "SuccessRequests (GetTotalStats pool) =
           sum_list (map (\<lambda>h. SuccessRequests (stats h)) (Clients pool))"
    "FailedRequests (GetTotalStats pool) =
           sum_list (map (\<lambda>h. FailedRequests (stats h)) (Clients pool))"
    "TotalLatency (GetTotalStats pool) =
           sum_list (map (\<lambda>h. TotalLatency (stats h)) (Clients pool))"
    by (simp_all add: GetTotalStats_def total_of_def foldl_merge_sums zero_stats_def comp_def)
  have e: "(let total = GetTotalStats \<lparr>Clients = map (\<lambda>st. (fresh_client conf)\<lparr>stats := st\<rparr>)
              [\<lparr>TotalRequests = 10, SuccessRequests = s1, FailedRequests = f1, MinLatency = 5,
                 MaxLatency = 50, TotalLatency = 100, Duration = 2000000000\<rparr>,
               \<lparr>TotalRequests = 9, SuccessRequests = s2, FailedRequests = f2, MinLatency = 3,
                 MaxLatency = 40, TotalLatency = 90, Duration = 3000000000\<rparr>,
               \<lparr>TotalRequests = 11, SuccessRequests = s3, FailedRequests = f3, MinLatency = 8,
                 MaxLatency = 60, TotalLatency = 110, Duration = 1000000000\<rparr>],
              ClientsConf = conf\<rparr>
          in MinLatency total = 3 \<and> MaxLatency total = 60 \<and> TotalRequests total = 30 \<and>
             Duration total = 3000000000)"
    by (simp add: GetTotalStats_def total_of_def merge_stats_def zero_stats_def Let_def
        word_sless_alt)
  from a b c d e show ?thesis by simp
qed

section \<open>Pool construction\<close>

lemma Validate_None: "Validate conf = None \<longleftrightarrow> fields_valid conf"
  by (auto simp: Validate_def fields_valid_def word_sle_eq word_sless_alt)


lemma new_clients_stop:
  "\<not> i <s H2loadConf.Clients conf \<Longrightarrow> new_clients parse conf i clients = Inr clients"
  by (subst new_clients.simps) simp



lemma makeslice_fits_zero: "makeslice_fits maxAlloc 0"
  by (simp add: makeslice_fits_def)







section \<open>Averages over a pool of no connections\<close>

text \<open>
  C9. A configuration with \<open>Clients = 0\<close> (and otherwise valid) passes validation
  and yields a pool of no connections; on it the client count \<open>GetAvgClientStats\<close>
  divides by is zero, nothing guards the divisions, and the call ends in the run-time
  panic of the integer division instead of a value.
\<close>

theorem avg_stats_zero_clients:
  assumes "H2loadConf.Clients conf = 0" and "fields_valid conf"
  shows "Validate conf = None \<and>
         NewH2loadClient parse maxAlloc conf = Inr \<lparr>Clients = [], ClientsConf = conf\<rparr> \<and>
         (word_of_nat (length (Clients \<lparr>Clients = [], ClientsConf = conf\<rparr>)) :: int64) = 0 \<and>
         GetAvgClientStats fquot \<lparr>Clients = [], ClientsConf = conf\<rparr> =
           Inl (Panic ''runtime error: integer divide by zero'')"
proof -
  from assms(2) have v: "Validate conf = None" by (simp add: Validate_None)
  from assms(1) have "new_clients parse conf 0 [] = Inr []"
    by (intro new_clients_stop) simp
  with v assms(1)
  have p: "NewH2loadClient parse maxAlloc conf = Inr \<lparr>Clients = [], ClientsConf = conf\<rparr>"
    by (simp add: NewH2loadClient_def makeslice_fits_zero)
  have d: "GetAvgClientStats fquot \<lparr>Clients = [], ClientsConf = conf\<rparr> =
           Inl (Panic ''runtime error: integer divide by zero'')"
    by (simp add: GetAvgClientStats_def Let_def div_int64_def)
  from v p d show ?thesis by simp
qed

text \<open>On the concrete pool of no connections.\<close>

theorem avg_stats_zero_clients_witness:
  "H2loadConf.Clients no_clients_conf = 0 \<and> fields_valid no_clients_conf \<and>
   Validate no_clients_conf = None \<and>
   NewH2loadClient parse_without_control_bytes maxAlloc_amd64 no_clients_conf =
     Inr \<lparr>Clients = [], ClientsConf = no_clients_conf\<rparr> \<and>
   GetAvgClientStats (\<lambda>a b. 0) \<lparr>Clients = [], ClientsConf = no_clients_conf\<rparr> =
     Inl (Panic ''runtime error: integer divide by zero'')"
proof -
  have a: "H2loadConf.Clients no_clients_conf = 0" "fields_valid no_clients_conf"
    by code_simp+
  from avg_stats_zero_clients [OF a, of parse_without_control_bytes maxAlloc_amd64 "\<lambda>a b. 0"] a
  show ?thesis by simp
qed

section \<open>Concrete runs\<close>

lemma run_launch_two: "run launch_two (fresh_client example_conf) = Some example_launched"
  by code_simp

lemma run_example_schedule: "run example_schedule (fresh_client example_conf) = Some example_done"
  by code_simp

text \<open>On the pool of two connections that have each run \<open>example_schedule\<close>.\<close>

theorem counters_sum_to_total_witness:
  "run example_schedule (fresh_client example_conf) = Some example_done \<and>
   counters_agree (stats example_done) \<and>
   TotalRequests (stats example_done) = 2 \<and>
   counters_agree (GetTotalStats example_pool) \<and>
   TotalRequests (GetTotalStats example_pool) = 4"
proof -
  have "\<forall>h \<in> set (Clients example_pool). \<exists>conf evs. run evs (fresh_client conf) = Some h"
    using run_example_schedule by (auto simp: example_pool_def)
  from counters_sum_to_total [OF this]
  have a: "counters_agree (stats example_done)" "counters_agree (GetTotalStats example_pool)"
    by (simp_all add: example_pool_def)
  have b: "TotalRequests (stats example_done) = 2"
    "TotalRequests (GetTotalStats example_pool) = 4"
    by code_simp+
  from a b run_example_schedule show ?thesis by simp
qed


text \<open>With both requests launched, two tasks are in flight on two streams.\<close>

theorem in_flight_within_streams_witness:
  "run launch_two (fresh_client example_conf) = Some example_launched \<and>
   in_flight example_launched = 2 \<and> streams example_launched = 2 \<and>
   int (in_flight example_launched) \<le> sint (ConcurrentStreams example_conf)"
proof -
  have c: "0 \<le>s ConcurrentStreams example_conf" by code_simp
  from in_flight_within_streams [OF run_launch_two] c
  have a: "in_flight example_launched = streams example_launched"
    "int (in_flight example_launched) \<le> sint (ConcurrentStreams example_conf)"
    by simp_all
  have b: "streams example_launched = 2" by code_simp
  from a b run_launch_two show ?thesis by simp
qed

text \<open>On a concrete configuration with no stream: one turn of the loop.\<close>

theorem zero_streams_never_dispatch_witness:
  "ConcurrentStreams zero_streams_conf = 0 \<and> 0 <s Requests zero_streams_conf \<and>
   run [Start, Loop SelDefault, Slot SelDefault, Loop SelDefault] (fresh_client zero_streams_conf)
     = Some ((fresh_client zero_streams_conf)\<lparr>pc := TrySlot\<rparr>) \<and>
   Validate zero_streams_conf = None \<and>
   fire (Slot SelComm) ((fresh_client zero_streams_conf)\<lparr>pc := TrySlot\<rparr>) = None \<and>
   fire (Slot SelDefault) ((fresh_client zero_streams_conf)\<lparr>pc := TrySlot\<rparr>)
     = Some ((fresh_client zero_streams_conf)\<lparr>pc := LoopHead\<rparr>) \<and>
   sentRequests ((fresh_client zero_streams_conf)\<lparr>pc := TrySlot\<rparr>) = 0"
proof -
  have a: "ConcurrentStreams zero_streams_conf = 0" "0 <s Requests zero_streams_conf"
    by code_simp+
  have r: "run [Start, Loop SelDefault, Slot SelDefault, Loop SelDefault]
      (fresh_client zero_streams_conf) = Some ((fresh_client zero_streams_conf)\<lparr>pc := TrySlot\<rparr>)"
    by code_simp
  have c: "\<not> ctxDone ((fresh_client zero_streams_conf)\<lparr>pc := TrySlot\<rparr>)"
    by (simp add: fresh_client_def)
  have v: "URL zero_streams_conf \<noteq> [] \<and> 0 \<le>s Rate zero_streams_conf \<and>
     0 \<le>s RatePeriod zero_streams_conf \<and> 0 \<le>s Rps zero_streams_conf \<and>
     0 \<le>s H2loadConf.Clients zero_streams_conf"
    by code_simp
  from zero_streams_never_dispatch [OF a r c] a r v show ?thesis
    by simp
qed

text \<open>On the pool of two connections: minimum 5, maximum 7, duration 100.\<close>

theorem total_stats_merge_witness:
  "0 \<le>s MinLatency (stats example_done) \<and> 0 \<le>s MaxLatency (stats example_done) \<and>
   0 \<le>s Duration (stats example_done) \<and>
   sint (MinLatency (GetTotalStats example_pool)) = 5 \<and>
   sint (MaxLatency (GetTotalStats example_pool)) = 7 \<and>
   sint (Duration (GetTotalStats example_pool)) = 100 \<and>
   TotalRequests (GetTotalStats example_pool) = 4"
proof -
  have nn: "0 \<le>s MinLatency (stats example_done)" "0 \<le>s MaxLatency (stats example_done)"
    "0 \<le>s Duration (stats example_done)"
    by code_simp+
  then have "\<forall>h \<in> set (Clients example_pool).
      0 \<le>s MinLatency (stats h) \<and> 0 \<le>s MaxLatency (stats h) \<and> 0 \<le>s Duration (stats h)"
    by (simp add: example_pool_def)
  from total_stats_merge [OF this]
  have a: "sint (MinLatency (GetTotalStats example_pool)) =
           spec_min_latency (map (\<lambda>h. sint (MinLatency (stats h))) (Clients example_pool))"
    "sint (MaxLatency (GetTotalStats example_pool)) =
           spec_maximum (map (\<lambda>h. sint (MaxLatency (stats h))) (Clients example_pool))"
    "sint (Duration (GetTotalStats example_pool)) =
           spec_maximum (map (\<lambda>h. sint (Duration (stats h))) (Clients example_pool))"
    "TotalRequests (GetTotalStats example_pool) =
           sum_list (map (\<lambda>h. TotalRequests (stats h)) (Clients example_pool))"
    by simp_all
  have b: "spec_min_latency (map (\<lambda>h. sint (MinLatency (stats h))) (Clients example_pool)) = 5"
    "spec_maximum (map (\<lambda>h. sint (MaxLatency (stats h))) (Clients example_pool)) = 7"
    "spec_maximum (map (\<lambda>h. sint (Duration (stats h))) (Clients example_pool)) = 100"
    "sum_list (map (\<lambda>h. TotalRequests (stats h)) (Clients example_pool)) = 4"
    by code_simp+
  from a b nn show ?thesis by simp
qed

section \<open>The rate limiter after cancellation\<close>

lemma start_tasks:
  "resetTask h = Some RWait \<Longrightarrow> resetTask (start h) = Some RWait"
  "evenTask h = Some EWait \<Longrightarrow> evenTask (start h) = Some EWait"
  "resetStopped (start h) = resetStopped h" "resetPending (start h) = resetPending h"
  "evenStopped (start h) = evenStopped h" "evenPending (start h) = evenPending h"
  by (simp_all add: start_def Let_def)

lemma fire_reset_parked:
  assumes "fire e h = Some h'" "reset_parked h"
  shows "reset_parked h'"
  using assms by (cases rule: fire_cases) (auto simp: reset_parked_def start_tasks)

lemma fire_even_parked:
  assumes "fire e h = Some h'" "even_parked h"
  shows "even_parked h'"
  using assms by (cases rule: fire_cases) (auto simp: even_parked_def start_tasks)

lemma run_reset_parked: "run evs h = Some h' \<Longrightarrow> reset_parked h \<Longrightarrow> reset_parked h'"
  by (erule run_invariant [where P = reset_parked]) (simp_all add: fire_reset_parked)

lemma run_even_parked: "run evs h = Some h' \<Longrightarrow> even_parked h \<Longrightarrow> even_parked h'"
  by (erule run_invariant [where P = even_parked]) (simp_all add: fire_even_parked)

section \<open>The error a run returns\<close>

lemma run_race_prefix: "run race_prefix (fresh_client example_conf) = Some race_first_stored"
  by code_simp

lemma run_race_rest: "run race_rest race_first_stored = Some race_done"
  by code_simp

text \<open>
  C6, where the code departs from it. Two requests in flight both fail in the
  transport; each is queued as an outcome of status 0 and counted as failed, and the
  pump runs on to its ceiling. Both tasks load \<open>firstErr\<close> while it is still empty;
  the first task stores its error, the second then stores its own over it, and
  \<open>DoRequestsFactory\<close> returns the second error: the error stored first is lost and
  the later one is kept.
\<close>

theorem first_error_overwritten:
  "run race_prefix (fresh_client example_conf) = Some race_first_stored \<and>
   firstErr race_first_stored = Some ''request failed: first'' \<and>
   run (race_prefix @ race_rest) (fresh_client example_conf) = Some race_done \<and>
   pc race_done = Returned \<and> \<not> ctxDone race_done \<and>
   firstErr race_done = Some ''request failed: second'' \<and>
   TotalRequests (stats race_done) = 2 \<and> FailedRequests (stats race_done) = 2"
proof -
  have "run (race_prefix @ race_rest) (fresh_client example_conf) = Some race_done"
    by (simp add: run_append run_race_prefix run_race_rest)
  moreover have "firstErr race_first_stored = Some ''request failed: first''"
    "pc race_done = Returned" "\<not> ctxDone race_done"
    "firstErr race_done = Some ''request failed: second''"
    "TotalRequests (stats race_done) = 2" "FailedRequests (stats race_done) = 2"
    by (simp_all add: race_first_stored_def race_done_def fresh_client_def)
  ultimately show ?thesis using run_race_prefix by simp
qed

text \<open>The error stored first is not the error returned.\<close>

theorem first_error_overwritten_witness:
  "firstErr race_first_stored \<noteq> firstErr race_done \<and> pc race_done = Returned"
  using first_error_overwritten by simp

section \<open>The refill tasks after the run\<close>

lemma run_stop_burst: "run stop_schedule (fresh_client limited_conf) = Some stopped_burst"
  by code_simp

lemma run_stop_even: "run stop_schedule (fresh_client even_conf) = Some stopped_even"
  by code_simp

text \<open>
  C7, where the code departs from it. With \<open>Rps > 0\<close>, a run that is cancelled and
  returns leaves the goroutine ranging over \<open>rpsResetTicker.C\<close> (and, in even mode, the
  one ranging over \<open>evenTicker.C\<close>) at the receive from a stopped ticker's channel:
  in no later state has it exited. And a burst refill that is inside its loop when the
  context is cancelled can still take the send case and add a token.
\<close>

theorem refill_task_outlives_run:
  "run stop_schedule (fresh_client limited_conf) = Some stopped_burst \<and>
   ctxDone stopped_burst \<and> pc stopped_burst = Returned \<and>
   (\<forall>evs h. run evs stopped_burst = Some h \<longrightarrow> resetTask h = Some RWait) \<and>
   run stop_schedule (fresh_client even_conf) = Some stopped_even \<and>
   ctxDone stopped_even \<and> pc stopped_even = Returned \<and>
   (\<forall>evs h. run evs stopped_even = Some h \<longrightarrow>
      evenTask h = Some EWait \<and> resetTask h = Some RWait) \<and>
   run [Start, ResetTick, ResetRecv, Cancel] (fresh_client limited_conf)
     = Some cancelled_filling \<and>
   ctxDone cancelled_filling \<and> rpsTokens cancelled_filling = 0 \<and>
   fire (ResetSel SelComm) cancelled_filling
     = Some (cancelled_filling\<lparr>rpsTokens := 1, resetTask := Some RWait\<rparr>)"
proof -
  have pb: "reset_parked stopped_burst"
    by (simp add: reset_parked_def stopped_burst_def fresh_client_def)
  have pe: "reset_parked stopped_even" "even_parked stopped_even"
    by (simp_all add: reset_parked_def even_parked_def stopped_even_def fresh_client_def)
  have a: "\<forall>evs h. run evs stopped_burst = Some h \<longrightarrow> resetTask h = Some RWait"
    using run_reset_parked [OF _ pb] by (auto simp: reset_parked_def)
  have b: "\<forall>evs h. run evs stopped_even = Some h \<longrightarrow>
      evenTask h = Some EWait \<and> resetTask h = Some RWait"
    using run_reset_parked [OF _ pe(1)] run_even_parked [OF _ pe(2)]
    by (auto simp: reset_parked_def even_parked_def)
  have c: "ctxDone stopped_burst" "pc stopped_burst = Returned"
    "ctxDone stopped_even" "pc stopped_even = Returned"
    "ctxDone cancelled_filling" "rpsTokens cancelled_filling = 0"
    by (simp_all add: stopped_burst_def stopped_even_def cancelled_filling_def fresh_client_def)
  have d: "run [Start, ResetTick, ResetRecv, Cancel] (fresh_client limited_conf)
     = Some cancelled_filling"
    by code_simp
  have e: "fire (ResetSel SelComm) cancelled_filling
     = Some (cancelled_filling\<lparr>rpsTokens := 1, resetTask := Some RWait\<rparr>)"
    by code_simp
  from a b c d e run_stop_burst run_stop_even show ?thesis by simp
qed

text \<open>One more event after the run: the task is where it was.\<close>

theorem refill_task_outlives_run_witness:
  "run [Cancel, Collect] stopped_burst = None \<and>
   run [Cancel] stopped_burst = Some stopped_burst \<and>
   resetTask stopped_burst = Some RWait \<and> ctxDone stopped_burst"
proof -
  have r: "run [Cancel] stopped_burst = Some stopped_burst" by code_simp
  have n: "run [Cancel, Collect] stopped_burst = None" by code_simp
  from refill_task_outlives_run have
    all: "\<forall>evs h. run evs stopped_burst = Some h \<longrightarrow> resetTask h = Some RWait"
    and c: "ctxDone stopped_burst"
    by simp_all
  from all r have "resetTask stopped_burst = Some RWait" by blast
  with r n c show ?thesis by blast
qed

end
